theory Spec2Isabelle
  imports Main "HOL-Library.Multiset" "HOL-Library.Sublist"
begin

section \<open>Data model\<close>

text \<open>
  A publication record as the page controllers read it.  Every field except the identity
  key is optional: \<open>None\<close> stands for a property that is \<^verbatim>\<open>undefined\<close> or
  \<^verbatim>\<open>null\<close> (the modelled operations never tell the two apart).  Years are integers,
  strings are byte strings, \<^verbatim>\<open>publishers\<close> is a string or an array of strings
  (publication.js, line 225, accepts both), \<^verbatim>\<open>tags\<close> is an array of strings.
\<close>

datatype publishers = PubStr string | PubArr "string list"

record publication =
  pubId :: int
  name :: "string option"
  city :: "string option"
  yearFounded :: "int option"
  yearCeased :: "int option"
  isActive :: "bool option"
  decade :: "string option"
  medium :: "string option"
  primaryFocus :: "string option"
  missionStatement :: "string option"
  historicalNotes :: "string option"
  publishers :: "publishers option"
  tags :: "string list option"

text \<open>The only exception the modelled code can raise.\<close>

datatype error = TypeError

section \<open>JavaScript primitives\<close>

text \<open>
  \<^verbatim>\<open>x || d\<close> on an optional number: the default is taken when \<open>x\<close> is absent and
  also when it is \<open>0\<close>, the one falsy integer.
\<close>

fun orNum :: "int option \<Rightarrow> int \<Rightarrow> int" where
  "orNum None d = d"
| "orNum (Some v) d = (if v = 0 then d else v)"

text \<open>\<^verbatim>\<open>s || ''\<close> on an optional string.\<close>

fun orStr :: "string option \<Rightarrow> string" where
  "orStr None = []"
| "orStr (Some s) = s"

text \<open>Truthiness of an optional number.\<close>

fun truthyNum :: "int option \<Rightarrow> bool" where
  "truthyNum None = False"
| "truthyNum (Some v) = (v \<noteq> 0)"

text \<open>
  \<^verbatim>\<open>String.prototype.toLowerCase\<close>, on the ASCII letters (a character is a byte here;
  letters outside ASCII are outside the model).
\<close>

definition toLowerCaseChar :: "char \<Rightarrow> char" where
  "toLowerCaseChar c =
     (case map_of (zip ''ABCDEFGHIJKLMNOPQRSTUVWXYZ'' ''abcdefghijklmnopqrstuvwxyz'') c of
        None \<Rightarrow> c | Some d \<Rightarrow> d)"

definition toLowerCase :: "string \<Rightarrow> string" where
  "toLowerCase s = map toLowerCaseChar s"

text \<open>\<^verbatim>\<open>String.prototype.trim\<close>: ASCII white space and line terminators are dropped
  at both ends.\<close>

definition isWhiteSpace :: "char \<Rightarrow> bool" where
  "isWhiteSpace c = (c \<in> set [CHR '' '', CHR 0x09, CHR 0x0A, CHR 0x0B, CHR 0x0C, CHR 0x0D])"

definition trim :: "string \<Rightarrow> string" where
  "trim s = rev (dropWhile isWhiteSpace (rev (dropWhile isWhiteSpace s)))"

text \<open>\<^verbatim>\<open>s.includes(q)\<close>: \<open>q\<close> occurs in \<open>s\<close> as a contiguous substring.\<close>

fun includesStr :: "string \<Rightarrow> string \<Rightarrow> bool" where
  "includesStr [] q = (q = [])"
| "includesStr (c # cs) q = (prefix q (c # cs) \<or> includesStr cs q)"

text \<open>
  \<^verbatim>\<open>Array.prototype.sort(cmp)\<close>.  The sort is stable (ECMAScript 2019): an element
  moves behind another only when the comparator puts it strictly after.  Insertion from
  the right end realises exactly that order.
\<close>

fun insertSorted :: "('a \<Rightarrow> 'a \<Rightarrow> int) \<Rightarrow> 'a \<Rightarrow> 'a list \<Rightarrow> 'a list" where
  "insertSorted cmp x [] = [x]"
| "insertSorted cmp x (y # ys) =
     (if cmp x y \<le> 0 then x # y # ys else y # insertSorted cmp x ys)"

definition arraySort :: "('a \<Rightarrow> 'a \<Rightarrow> int) \<Rightarrow> 'a list \<Rightarrow> 'a list" where
  "arraySort cmp xs = foldr (insertSorted cmp) xs []"

section \<open>SortEngine: sortPublications (archive.js 282-301, app.js 223-242)\<close>

text \<open>
  The switch over the sort key is the same text in both controllers; a key that matches
  no case leaves the copied list as it is.  \<^verbatim>\<open>localeCompare\<close> is the platform's
  collation and is taken as a parameter.
\<close>

definition sortPublications ::
  "(string \<Rightarrow> string \<Rightarrow> int) \<Rightarrow> string \<Rightarrow> publication list \<Rightarrow> publication list" where
  "sortPublications localeCompare key list =
     (if key = ''name'' then
        arraySort (\<lambda>a b. localeCompare (orStr (name a)) (orStr (name b))) list
      else if key = ''year-asc'' then
        arraySort (\<lambda>a b. orNum (yearFounded a) 9999 - orNum (yearFounded b) 9999) list
      else if key = ''year-desc'' then
        arraySort (\<lambda>a b. orNum (yearFounded b) 0 - orNum (yearFounded a) 0) list
      else if key = ''city'' then
        arraySort (\<lambda>a b. localeCompare (orStr (city a)) (orStr (city b))) list
      else list)"

text \<open>An object literal that carries the identity key only.\<close>

definition blank :: "int \<Rightarrow> publication" where
  "blank i =
     \<lparr>pubId = i, name = None, city = None, yearFounded = None, yearCeased = None,
      isActive = None, decade = None, medium = None, primaryFocus = None,
      missionStatement = None, historicalNotes = None, publishers = None, tags = None\<rparr>"

text \<open>The record of the specification's scenarios A and B.\<close>

definition scenarioA :: publication where
  "scenarioA =
     (blank 1)\<lparr>name := Some ''Afro-American'', city := Some ''Jersey City'',
               yearFounded := Some 1880\<rparr>"

text \<open>A record whose only mention of its founder is in the historical notes and whose
  only mention of its subject is in a tag.\<close>

definition herald :: publication where
  "herald =
     (blank 2)\<lparr>name := Some ''The Herald'', city := Some ''Newark'',
               historicalNotes := Some ''Founded by John Smith'',
               tags := Some [''Civil Rights'']\<rparr>"

text \<open>A record whose publishers are an array.\<close>

definition sentinel :: publication where
  "sentinel =
     (blank 3)\<lparr>name := Some ''The Sentinel'',
               publishers := Some (PubArr [''A. Brown'', ''B. Green''])\<rparr>"

section \<open>Page state\<close>

text \<open>
  The filter object of archive.js (lines 13-18); app.js adds \<^verbatim>\<open>format\<close> (lines 13-19).
  The fields \<^verbatim>\<open>city\<close> and \<^verbatim>\<open>decade\<close> are named \<open>cityFilter\<close> and
  \<open>decadeFilter\<close> here, apart from the record fields they are compared with.
\<close>

record filters =
  search :: string
  cityFilter :: string
  decadeFilter :: string
  status :: string

record app_filters = filters +
  format :: string

text \<open>
  The state object of archive.js (lines 10-23).  The page and the page size are counts:
  the page starts at 1 and is only ever incremented or reset to 1, the page size is 24.
\<close>

record archive_state =
  publications :: "publication list"
  filtered :: "publication list"
  filters :: filters
  sort_st :: string
  view :: string
  page :: nat
  perPage :: nat

text \<open>The state object of app.js (lines 10-23).\<close>

record app_state =
  app_publications :: "publication list"
  filteredPublications :: "publication list"
  app_filters :: app_filters
  sortBy :: string
  currentPage :: nat
  app_perPage :: nat

definition defaultFilters :: filters where
  "defaultFilters =
     \<lparr>search = [], cityFilter = ''all'', decadeFilter = ''all'', status = ''all''\<rparr>"

definition initialState :: archive_state where
  "initialState =
     \<lparr>publications = [], filtered = [], filters = defaultFilters,
      sort_st = ''name'', view = ''grid'', page = 1, perPage = 24\<rparr>"

definition app_defaultFilters :: app_filters where
  "app_defaultFilters =
     \<lparr>search = [], cityFilter = ''all'', decadeFilter = ''all'', status = ''all'',
      format = ''all''\<rparr>"

definition app_initialState :: app_state where
  "app_initialState =
     \<lparr>app_publications = [], filteredPublications = [], app_filters = app_defaultFilters,
      sortBy = ''name'', currentPage = 1, app_perPage = 24\<rparr>"

section \<open>FilterEngine\<close>

text \<open>
  \<^verbatim>\<open>Array.prototype.filter\<close> with a callback that may throw: the first exception
  aborts the whole call.
\<close>

fun filterE :: "('a \<Rightarrow> error + bool) \<Rightarrow> 'a list \<Rightarrow> error + 'a list" where
  "filterE P [] = Inr []"
| "filterE P (x # xs) =
     (case P x of
        Inl e \<Rightarrow> Inl e
      | Inr b \<Rightarrow>
          (case filterE P xs of
             Inl e \<Rightarrow> Inl e
           | Inr ys \<Rightarrow> Inr (if b then x # ys else ys)))"

subsection \<open>archive.js, applyFilters (lines 237-280)\<close>

text \<open>\<^verbatim>\<open>(pub.f && pub.f.toLowerCase().includes(query))\<close> for a string field.\<close>

definition fieldIncludes :: "string option \<Rightarrow> string \<Rightarrow> bool" where
  "fieldIncludes f query =
     (case f of None \<Rightarrow> False | Some s \<Rightarrow> s \<noteq> [] \<and> includesStr (toLowerCase s) query)"

text \<open>
  \<^verbatim>\<open>(pub.publishers && pub.publishers.toLowerCase().includes(query))\<close>: an array is
  truthy and has no \<^verbatim>\<open>toLowerCase\<close>, so the call throws.
\<close>

definition publishersIncludes :: "publishers option \<Rightarrow> string \<Rightarrow> error + bool" where
  "publishersIncludes p query =
     (case p of
        None \<Rightarrow> Inr False
      | Some (PubStr s) \<Rightarrow> Inr (s \<noteq> [] \<and> includesStr (toLowerCase s) query)
      | Some (PubArr xs) \<Rightarrow> Inl TypeError)"

text \<open>\<^verbatim>\<open>(pub.tags && pub.tags.some(t => t.toLowerCase().includes(query)))\<close>.\<close>

definition tagsInclude :: "string list option \<Rightarrow> string \<Rightarrow> bool" where
  "tagsInclude ts query =
     (case ts of None \<Rightarrow> False | Some xs \<Rightarrow> list_ex (\<lambda>t. includesStr (toLowerCase t) query) xs)"

text \<open>The search callback, lines 243-251: the disjuncts are tried in the source's order and
  the first truthy one ends the evaluation.\<close>

definition searchMatches :: "publication \<Rightarrow> string \<Rightarrow> error + bool" where
  "searchMatches pub query =
     (if fieldIncludes (name pub) query then Inr True
      else if fieldIncludes (city pub) query then Inr True
      else if fieldIncludes (missionStatement pub) query then Inr True
      else if fieldIncludes (historicalNotes pub) query then Inr True
      else if fieldIncludes (primaryFocus pub) query then Inr True
      else (case publishersIncludes (publishers pub) query of
              Inl e \<Rightarrow> Inl e
            | Inr True \<Rightarrow> Inr True
            | Inr False \<Rightarrow> Inr (tagsInclude (tags pub) query)))"

text \<open>
  The function filters, sorts and stores the result in \<^verbatim>\<open>state.filtered\<close>; what it
  then draws and writes to the address bar is \<open>renderResults\<close> and \<open>updateURL\<close> below.
\<close>

definition applyFilters ::
  "(string \<Rightarrow> string \<Rightarrow> int) \<Rightarrow> archive_state \<Rightarrow> error + archive_state" where
  "applyFilters localeCompare st =
     (let f = filters st in
      case (if search f \<noteq> []
            then filterE (\<lambda>pub. searchMatches pub (toLowerCase (search f))) (publications st)
            else Inr (publications st)) of
        Inl e \<Rightarrow> Inl e
      | Inr s1 \<Rightarrow>
          (let s2 = (if cityFilter f \<noteq> ''all''
                     then filter (\<lambda>pub. city pub = Some (cityFilter f)) s1 else s1);
               s3 = (if decadeFilter f \<noteq> ''all''
                     then filter (\<lambda>pub. decade pub = Some (decadeFilter f)) s2 else s2);
               s4 = (if status f \<noteq> ''all'' then
                       (if status f = ''active''
                        then filter (\<lambda>pub. isActive pub \<noteq> Some False
                                       \<and> \<not> truthyNum (yearCeased pub)) s3
                        else filter (\<lambda>pub. isActive pub = Some False
                                       \<or> truthyNum (yearCeased pub)) s3)
                     else s3)
           in Inr (st\<lparr>filtered := sortPublications localeCompare (sort_st st) s4\<rparr>)))"

text \<open>The search box's input handler, lines 126-130.\<close>

definition handleSearch ::
  "(string \<Rightarrow> string \<Rightarrow> int) \<Rightarrow> string \<Rightarrow> archive_state \<Rightarrow> error + archive_state" where
  "handleSearch localeCompare typed st =
     applyFilters localeCompare
       (st\<lparr>filters := (filters st)\<lparr>search := toLowerCase (trim typed)\<rparr>, page := 1\<rparr>)"

subsection \<open>app.js, applyFilters (lines 175-221)\<close>

text \<open>app.js, sortPublications (lines 223-242): the same switch, run on the state.\<close>

definition app_sortPublications :: "(string \<Rightarrow> string \<Rightarrow> int) \<Rightarrow> app_state \<Rightarrow> app_state" where
  "app_sortPublications localeCompare st =
     st\<lparr>filteredPublications :=
          sortPublications localeCompare (sortBy st) (filteredPublications st)\<rparr>"

text \<open>\<^verbatim>\<open>pub.f?.toLowerCase().includes(query)\<close> for a string field.\<close>

definition optIncludes :: "string option \<Rightarrow> string \<Rightarrow> bool" where
  "optIncludes f query =
     (case f of None \<Rightarrow> False | Some s \<Rightarrow> includesStr (toLowerCase s) query)"

text \<open>\<^verbatim>\<open>pub.publishers?.toLowerCase().includes(query)\<close>: the optional chain guards
  against an absent value only, an array still throws.\<close>

definition app_publishersIncludes :: "publishers option \<Rightarrow> string \<Rightarrow> error + bool" where
  "app_publishersIncludes p query =
     (case p of
        None \<Rightarrow> Inr False
      | Some (PubStr s) \<Rightarrow> Inr (includesStr (toLowerCase s) query)
      | Some (PubArr xs) \<Rightarrow> Inl TypeError)"

definition app_searchMatches :: "publication \<Rightarrow> string \<Rightarrow> error + bool" where
  "app_searchMatches pub query =
     (if optIncludes (name pub) query then Inr True
      else if optIncludes (city pub) query then Inr True
      else if optIncludes (primaryFocus pub) query then Inr True
      else if optIncludes (missionStatement pub) query then Inr True
      else app_publishersIncludes (publishers pub) query)"

text \<open>The format callback, lines 208-213.\<close>

definition formatMatches :: "string \<Rightarrow> publication \<Rightarrow> bool" where
  "formatMatches fmt pub =
     (let m = (case medium pub of None \<Rightarrow> [] | Some s \<Rightarrow> toLowerCase s) in
      if fmt = ''print'' then includesStr m ''print''
      else if fmt = ''digital'' then includesStr m ''digital'' \<or> includesStr m ''online''
      else True)"

definition app_applyFilters ::
  "(string \<Rightarrow> string \<Rightarrow> int) \<Rightarrow> app_state \<Rightarrow> error + app_state" where
  "app_applyFilters localeCompare st =
     (let f = app_filters st in
      case (if search f \<noteq> []
            then filterE (\<lambda>pub. app_searchMatches pub (search f)) (app_publications st)
            else Inr (app_publications st)) of
        Inl e \<Rightarrow> Inl e
      | Inr s1 \<Rightarrow>
          (let s2 = (if cityFilter f \<noteq> ''all''
                     then filter (\<lambda>pub. city pub = Some (cityFilter f)) s1 else s1);
               s3 = (if decadeFilter f \<noteq> ''all''
                     then filter (\<lambda>pub. decade pub = Some (decadeFilter f)) s2 else s2);
               s4 = (if status f \<noteq> ''all''
                     then filter (\<lambda>pub. isActive pub = Some (status f = ''active'')) s3
                     else s3);
               s5 = (if format f \<noteq> ''all'' then filter (formatMatches (format f)) s4 else s4)
           in Inr (app_sortPublications localeCompare (st\<lparr>filteredPublications := s5\<rparr>))))"

text \<open>The search box's input handler, lines 144-148.\<close>

definition app_handleSearch ::
  "(string \<Rightarrow> string \<Rightarrow> int) \<Rightarrow> string \<Rightarrow> app_state \<Rightarrow> error + app_state" where
  "app_handleSearch localeCompare typed st =
     app_applyFilters localeCompare
       (st\<lparr>app_filters := (app_filters st)\<lparr>search := trim (toLowerCase typed)\<rparr>,
           currentPage := 1\<rparr>)"

subsection \<open>The strings a search reads\<close>

text \<open>
  The field set the search is specified over: name, city, primaryFocus, missionStatement,
  publishers, historicalNotes and every tag.  An absent field contributes nothing.
\<close>

definition optString :: "string option \<Rightarrow> string list" where
  "optString f = (case f of None \<Rightarrow> [] | Some s \<Rightarrow> [s])"

definition searchFields :: "publication \<Rightarrow> string list" where
  "searchFields p =
     optString (name p) @ optString (city p) @ optString (primaryFocus p)
     @ optString (missionStatement p)
     @ (case publishers p of None \<Rightarrow> [] | Some (PubStr s) \<Rightarrow> [s] | Some (PubArr xs) \<Rightarrow> xs)
     @ optString (historicalNotes p)
     @ (case tags p of None \<Rightarrow> [] | Some ts \<Rightarrow> ts)"

text \<open>The fields that the callback of app.js names (lines 182-186).\<close>

definition app_searchFields :: "publication \<Rightarrow> string list" where
  "app_searchFields p =
     optString (name p) @ optString (city p) @ optString (primaryFocus p)
     @ optString (missionStatement p)
     @ (case publishers p of None \<Rightarrow> [] | Some (PubStr s) \<Rightarrow> [s] | Some (PubArr xs) \<Rightarrow> xs)"

section \<open>Paginator\<close>

text \<open>What a render pass puts on the page: the cards drawn, whether the empty-state
  panel is shown, whether the load-more control is shown.\<close>

record rendered =
  toShow :: "publication list"
  emptyShown :: bool
  loadMoreShown :: bool

text \<open>archive.js, renderResults (lines 303-332).\<close>

definition renderResults :: "archive_state \<Rightarrow> rendered" where
  "renderResults st =
     (let shown = take (page st * perPage st) (filtered st) in
      if length (filtered st) = 0
      then \<lparr>toShow = [], emptyShown = True, loadMoreShown = False\<rparr>
      else \<lparr>toShow = shown, emptyShown = False,
            loadMoreShown = (length shown < length (filtered st))\<rparr>)"

text \<open>archive.js, loadMore (lines 500-503).\<close>

definition loadMore :: "archive_state \<Rightarrow> archive_state" where
  "loadMore st = st\<lparr>page := page st + 1\<rparr>"

text \<open>app.js, renderPublications (lines 244-270), with the page elements present.\<close>

definition renderPublications :: "app_state \<Rightarrow> rendered" where
  "renderPublications st =
     (let end_ix = currentPage st * app_perPage st;
          shown = take end_ix (filteredPublications st) in
      if length shown = 0
      then \<lparr>toShow = [], emptyShown = True, loadMoreShown = False\<rparr>
      else \<lparr>toShow = shown, emptyShown = False,
            loadMoreShown = (end_ix < length (filteredPublications st))\<rparr>)"

text \<open>app.js, loadMore (lines 420-424).\<close>

definition app_loadMore :: "app_state \<Rightarrow> app_state" where
  "app_loadMore st = st\<lparr>currentPage := currentPage st + 1\<rparr>"

section \<open>QueryStateCodec\<close>

text \<open>
  A \<^verbatim>\<open>URLSearchParams\<close> object is its list of name-value pairs.  \<^verbatim>\<open>set\<close>
  overwrites the first pair of that name and drops the others, or appends; \<^verbatim>\<open>get\<close>
  reads the first pair of that name, \<^verbatim>\<open>has\<close> is \<open>paramsGet ps k \<noteq> None\<close>.
\<close>

type_synonym params = "(string \<times> string) list"

fun setFirst :: "string \<Rightarrow> string \<Rightarrow> params \<Rightarrow> params" where
  "setFirst k v [] = []"
| "setFirst k v ((k', v') # ps) =
     (if k' = k then (k, v) # filter (\<lambda>kv. fst kv \<noteq> k) ps else (k', v') # setFirst k v ps)"

definition paramsGet :: "params \<Rightarrow> string \<Rightarrow> string option" where
  "paramsGet ps k = map_of ps k"

definition paramsSet :: "params \<Rightarrow> string \<Rightarrow> string \<Rightarrow> params" where
  "paramsSet ps k v = (if paramsGet ps k = None then ps @ [(k, v)] else setFirst k v ps)"

text \<open>
  \<^verbatim>\<open>toString\<close> is the application/x-www-form-urlencoded serializer of the URL
  standard: a space becomes \<^verbatim>\<open>+\<close>, letters, digits and \<^verbatim>\<open>*-._\<close> stay, every
  other byte becomes \<^verbatim>\<open>%XX\<close>; pairs are joined by \<^verbatim>\<open>&\<close>.
\<close>

definition hexDigit :: "nat \<Rightarrow> char" where
  "hexDigit n = ''0123456789ABCDEF'' ! n"

definition hexValue :: "char \<Rightarrow> nat option" where
  "hexValue c =
     map_of (zip ''0123456789ABCDEFabcdef''
                 [0, 1, 2, 3, 4, 5, 6, 7, 8, 9, 10, 11, 12, 13, 14, 15, 10, 11, 12, 13, 14, 15]) c"

definition isUrlSafe :: "char \<Rightarrow> bool" where
  "isUrlSafe c =
     (c \<in> set ''*-._0123456789ABCDEFGHIJKLMNOPQRSTUVWXYZabcdefghijklmnopqrstuvwxyz'')"

definition encodeByte :: "char \<Rightarrow> string" where
  "encodeByte c =
     (if c = CHR '' '' then ''+''
      else if isUrlSafe c then [c]
      else [CHR ''%'', hexDigit (of_char c div 16), hexDigit (of_char c mod 16)])"

definition urlencode :: "string \<Rightarrow> string" where
  "urlencode s = concat (map encodeByte s)"

definition pairString :: "string \<times> string \<Rightarrow> string" where
  "pairString kv = urlencode (fst kv) @ ''='' @ urlencode (snd kv)"

fun serializeParams :: "params \<Rightarrow> string" where
  "serializeParams [] = []"
| "serializeParams [kv] = pairString kv"
| "serializeParams (kv # p # ps) = pairString kv @ ''&'' @ serializeParams (p # ps)"

text \<open>
  The constructor is the standard's parser: a leading \<^verbatim>\<open>?\<close> is dropped, the rest is
  split at \<^verbatim>\<open>&\<close>, empty pieces are skipped, each piece is split at its first
  \<^verbatim>\<open>=\<close>, \<^verbatim>\<open>+\<close> becomes a space and \<^verbatim>\<open>%XX\<close> is decoded (a \<^verbatim>\<open>%\<close> not
  followed by two hex digits stays).
\<close>

fun percentDecode :: "string \<Rightarrow> string" where
  "percentDecode (c # h # l # rest) =
     (case (c = CHR ''%'', hexValue h, hexValue l) of
        (True, Some a, Some b) \<Rightarrow> char_of (16 * a + b) # percentDecode rest
      | _ \<Rightarrow> c # percentDecode (h # l # rest))"
| "percentDecode (c # cs) = c # percentDecode cs"
| "percentDecode [] = []"

fun splitOn :: "char \<Rightarrow> string \<Rightarrow> string list" where
  "splitOn sep [] = [[]]"
| "splitOn sep (c # cs) =
     (if c = sep then [] # splitOn sep cs
      else (case splitOn sep cs of [] \<Rightarrow> [[c]] | w # ws \<Rightarrow> (c # w) # ws))"

definition plusToSpace :: "char \<Rightarrow> char" where
  "plusToSpace c = (if c = CHR ''+'' then CHR '' '' else c)"

definition decodeComponent :: "string \<Rightarrow> string" where
  "decodeComponent s = percentDecode (map plusToSpace s)"

definition parseParams :: "string \<Rightarrow> params" where
  "parseParams s =
     (let body = (case s of c # cs \<Rightarrow> if c = CHR ''?'' then cs else s | [] \<Rightarrow> []) in
      map (\<lambda>sq. (decodeComponent (takeWhile (\<lambda>c. c \<noteq> CHR ''='') sq),
                  decodeComponent (drop 1 (dropWhile (\<lambda>c. c \<noteq> CHR ''='') sq))))
          (filter (\<lambda>sq. sq \<noteq> []) (splitOn CHR ''&'' body)))"

text \<open>
  archive.js, updateURL (lines 74-86).  \<open>urlParams\<close> is the parameter object the
  function fills; the result is the query part of the address that
  \<^verbatim>\<open>replaceState\<close> installs, which is what \<^verbatim>\<open>window.location.search\<close> reads
  back: empty when no parameter was set.
\<close>

definition urlParams :: "archive_state \<Rightarrow> params" where
  "urlParams st =
     (let f = filters st;
          p0 = [];
          p1 = (if search f \<noteq> [] then paramsSet p0 ''search'' (search f) else p0);
          p2 = (if cityFilter f \<noteq> ''all'' then paramsSet p1 ''city'' (cityFilter f) else p1);
          p3 = (if decadeFilter f \<noteq> ''all''
                then paramsSet p2 ''decade'' (decadeFilter f) else p2);
          p4 = (if status f \<noteq> ''all'' then paramsSet p3 ''status'' (status f) else p3);
          p5 = (if sort_st st \<noteq> ''name'' then paramsSet p4 ''sort'' (sort_st st) else p4);
          p6 = (if view st \<noteq> ''grid'' then paramsSet p5 ''view'' (view st) else p5)
      in p6)"

definition updateURL :: "archive_state \<Rightarrow> string" where
  "updateURL st =
     (let qs = serializeParams (urlParams st) in if qs \<noteq> [] then CHR ''?'' # qs else [])"

text \<open>archive.js, loadStateFromURL (lines 63-72), on the query part of the address.\<close>

definition loadStateFromURL :: "string \<Rightarrow> archive_state \<Rightarrow> archive_state" where
  "loadStateFromURL locationSearch st =
     (let ps = parseParams locationSearch;
          s1 = (case paramsGet ps ''search'' of
                  Some v \<Rightarrow> st\<lparr>filters := (filters st)\<lparr>search := v\<rparr>\<rparr> | None \<Rightarrow> st);
          s2 = (case paramsGet ps ''city'' of
                  Some v \<Rightarrow> s1\<lparr>filters := (filters s1)\<lparr>cityFilter := v\<rparr>\<rparr> | None \<Rightarrow> s1);
          s3 = (case paramsGet ps ''decade'' of
                  Some v \<Rightarrow> s2\<lparr>filters := (filters s2)\<lparr>decadeFilter := v\<rparr>\<rparr> | None \<Rightarrow> s2);
          s4 = (case paramsGet ps ''status'' of
                  Some v \<Rightarrow> s3\<lparr>filters := (filters s3)\<lparr>status := v\<rparr>\<rparr> | None \<Rightarrow> s3);
          s5 = (case paramsGet ps ''sort'' of Some v \<Rightarrow> s4\<lparr>sort_st := v\<rparr> | None \<Rightarrow> s4);
          s6 = (case paramsGet ps ''view'' of Some v \<Rightarrow> s5\<lparr>view := v\<rparr> | None \<Rightarrow> s5)
      in s6)"

section \<open>DecadeAggregator (timeline.js)\<close>

record decade_window =
  label :: string
  start :: int
  end' :: int

record decade_bucket = decade_window +
  activeCount :: nat
  foundedCount :: nat
  activePublications :: "publication list"

text \<open>The table of lines 9-25.\<close>

definition decades :: "decade_window list" where
  "decades =
     [\<lparr>label = ''1880s'', start = 1880, end' = 1889\<rparr>,
      \<lparr>label = ''1890s'', start = 1890, end' = 1899\<rparr>,
      \<lparr>label = ''1900s'', start = 1900, end' = 1909\<rparr>,
      \<lparr>label = ''1910s'', start = 1910, end' = 1919\<rparr>,
      \<lparr>label = ''1920s'', start = 1920, end' = 1929\<rparr>,
      \<lparr>label = ''1930s'', start = 1930, end' = 1939\<rparr>,
      \<lparr>label = ''1940s'', start = 1940, end' = 1949\<rparr>,
      \<lparr>label = ''1950s'', start = 1950, end' = 1959\<rparr>,
      \<lparr>label = ''1960s'', start = 1960, end' = 1969\<rparr>,
      \<lparr>label = ''1970s'', start = 1970, end' = 1979\<rparr>,
      \<lparr>label = ''1980s'', start = 1980, end' = 1989\<rparr>,
      \<lparr>label = ''1990s'', start = 1990, end' = 1999\<rparr>,
      \<lparr>label = ''2000s'', start = 2000, end' = 2009\<rparr>,
      \<lparr>label = ''2010s'', start = 2010, end' = 2019\<rparr>,
      \<lparr>label = ''2020s'', start = 2020, end' = 2029\<rparr>]"

text \<open>
  The two callbacks of calculateDecadeData (lines 51-59).  A comparison of an absent
  \<^verbatim>\<open>yearFounded\<close> with a number is false (\<^verbatim>\<open>undefined\<close> compares as NaN,
  \<^verbatim>\<open>null\<close> as 0, below every window).
\<close>

definition activeIn :: "decade_window \<Rightarrow> publication \<Rightarrow> bool" where
  "activeIn d pub =
     (let founded = orNum (yearFounded pub) 9999;
          ceased = orNum (yearCeased pub) 2026
      in founded \<le> end' d \<and> ceased \<ge> start d)"

definition foundedIn :: "decade_window \<Rightarrow> publication \<Rightarrow> bool" where
  "foundedIn d pub =
     (case yearFounded pub of None \<Rightarrow> False | Some y \<Rightarrow> y \<ge> start d \<and> y \<le> end' d)"

text \<open>calculateDecadeData (lines 48-68); the bucket keeps the first five active records.\<close>

definition calculateDecadeData :: "publication list \<Rightarrow> decade_bucket list" where
  "calculateDecadeData pubs =
     map (\<lambda>d. \<lparr>label = label d, start = start d, end' = end' d,
               activeCount = length (filter (activeIn d) pubs),
               foundedCount = length (filter (foundedIn d) pubs),
               activePublications = take 5 (filter (activeIn d) pubs)\<rparr>)
         decades"

section \<open>Detail page lookup (publication.js)\<close>

text \<open>The two lists of the featured document (line 10).\<close>

record featured =
  historic :: "publication list"
  contemporary :: "publication list"

text \<open>
  findPublication (lines 62-75).  The result is a copy of the record found, paired with
  the \<^verbatim>\<open>_source\<close> tag the function adds; \<open>None\<close> is \<^verbatim>\<open>null\<close>.
\<close>

definition findPublication ::
  "featured \<Rightarrow> publication list \<Rightarrow> int \<Rightarrow> (publication \<times> string) option" where
  "findPublication featuredPublications allPublications i =
     (case find (\<lambda>p. pubId p = i) (historic featuredPublications) of
        Some pub \<Rightarrow> Some (pub, ''featured-historic'')
      | None \<Rightarrow>
          (case find (\<lambda>p. pubId p = i) (contemporary featuredPublications) of
             Some pub \<Rightarrow> Some (pub, ''featured-contemporary'')
           | None \<Rightarrow>
               (case find (\<lambda>p. pubId p = i) allPublications of
                  Some pub \<Rightarrow> Some (pub, ''main'')
                | None \<Rightarrow> None)))"

text \<open>
  The merge that the interface description asks of the lookup, field by field: the
  featured record's value where it has one, the base record's value otherwise.
\<close>

definition orElse :: "'a option \<Rightarrow> 'a option \<Rightarrow> 'a option" where
  "orElse a b = (case a of None \<Rightarrow> b | Some v \<Rightarrow> Some v)"

definition fillGapsMerge :: "publication \<Rightarrow> publication \<Rightarrow> publication" where
  "fillGapsMerge feat base =
     \<lparr>pubId = pubId feat,
      name = orElse (name feat) (name base),
      city = orElse (city feat) (city base),
      yearFounded = orElse (yearFounded feat) (yearFounded base),
      yearCeased = orElse (yearCeased feat) (yearCeased base),
      isActive = orElse (isActive feat) (isActive base),
      decade = orElse (decade feat) (decade base),
      medium = orElse (medium feat) (medium base),
      primaryFocus = orElse (primaryFocus feat) (primaryFocus base),
      missionStatement = orElse (missionStatement feat) (missionStatement base),
      historicalNotes = orElse (historicalNotes feat) (historicalNotes base),
      publishers = orElse (publishers feat) (publishers base),
      tags = orElse (tags feat) (tags base)\<rparr>"

section \<open>Properties of the sort\<close>


lemma arraySort_sort_key:
  assumes "\<And>a b. (cmp a b \<le> 0) = (f a \<le> f b)"
  shows "arraySort cmp xs = sort_key f xs"
proof -
  have "insertSorted cmp x ys = insort_key f x ys" for x ys
    by (induction ys) (simp_all add: assms)
  then show ?thesis
    unfolding arraySort_def sort_key_def by (induction xs) simp_all
qed

lemma mset_arraySort: "mset (arraySort cmp xs) = mset xs"
proof -
  have "mset (insertSorted cmp x ys) = add_mset x (mset ys)" for x ys
    by (induction ys) simp_all
  then show ?thesis unfolding arraySort_def by (induction xs) simp_all
qed

lemma mset_sortPublications: "mset (sortPublications lc key xs) = mset xs"
  by (simp add: sortPublications_def mset_arraySort)

lemma year_asc_sort_key:
  "sortPublications lc ''year-asc'' xs = sort_key (\<lambda>p. orNum (yearFounded p) 9999) xs"
  by (simp add: sortPublications_def arraySort_sort_key)

lemma year_desc_sort_key:
  "sortPublications lc ''year-desc'' xs = sort_key (\<lambda>p. - orNum (yearFounded p) 0) xs"
  by (simp add: sortPublications_def arraySort_sort_key)

lemma top_keys_last:
  fixes f :: "'a \<Rightarrow> int"
  assumes "sorted_wrt (\<lambda>a b. f a \<le> f b) xs" and "\<forall>x\<in>set xs. f x \<le> m"
  shows "filter (\<lambda>x. f x \<noteq> m) xs @ filter (\<lambda>x. f x = m) xs = xs"
  using assms
proof (induction xs)
  case Nil
  then show ?case by simp
next
  case (Cons x xs)
  show ?case
  proof (cases "f x = m")
    case True
    with Cons.prems have "\<forall>y\<in>set xs. f y = m" by fastforce
    then have "filter (\<lambda>x. f x \<noteq> m) xs = []" "filter (\<lambda>x. f x = m) xs = xs"
      by (simp_all add: filter_empty_conv)
    with True show ?thesis by simp
  next
    case False
    with Cons show ?thesis by simp
  qed
qed

lemma bottom_keys_last:
  fixes f :: "'a \<Rightarrow> int"
  assumes "sorted_wrt (\<lambda>a b. f a \<ge> f b) xs" and "\<forall>x\<in>set xs. f x \<ge> m"
  shows "filter (\<lambda>x. f x \<noteq> m) xs @ filter (\<lambda>x. f x = m) xs = xs"
proof -
  have "sorted_wrt (\<lambda>a b. - f a \<le> - f b) xs" using assms(1) by simp
  moreover have "\<forall>x\<in>set xs. - f x \<le> - m" using assms(2) by simp
  ultimately have "filter (\<lambda>x. - f x \<noteq> - m) xs @ filter (\<lambda>x. - f x = - m) xs = xs"
    by (rule top_keys_last)
  then show ?thesis by simp
qed

lemma sorted_year_asc:
  "sorted_wrt (\<lambda>a b. orNum (yearFounded a) 9999 \<le> orNum (yearFounded b) 9999)
     (sortPublications lc ''year-asc'' xs)"
  using sorted_sort_key[of "\<lambda>p. orNum (yearFounded p) 9999" xs]
  by (simp add: year_asc_sort_key sorted_wrt_map)

lemma sorted_year_desc:
  "sorted_wrt (\<lambda>a b. orNum (yearFounded a) 0 \<ge> orNum (yearFounded b) 0)
     (sortPublications lc ''year-desc'' xs)"
  using sorted_sort_key[of "\<lambda>p. - orNum (yearFounded p) 0" xs]
  by (simp add: year_desc_sort_key sorted_wrt_map)

text \<open>
  Claim C8.  Sorting by \<^verbatim>\<open>"year-asc"\<close> returns the same records in ascending
  order of the founding year, a record without a founding year (absent, or the falsy 0)
  counting as 9999, and ties keep their order.  Sorting by \<^verbatim>\<open>"year-desc"\<close> returns
  them in descending order, a record without a founding year counting as 0.  When the
  years present lie strictly between 0 and 9999 (above 0 for the descending order) the
  records without a year are the tail of the result.  The records founded 1920, unknown,
  1890 come out as 1890, 1920, unknown.
\<close>

theorem sortPublications_year_order:
  "mset (sortPublications lc ''year-asc'' list) = mset list
   \<and> sorted_wrt (\<lambda>a b. orNum (yearFounded a) 9999 \<le> orNum (yearFounded b) 9999)
        (sortPublications lc ''year-asc'' list)
   \<and> (\<forall>k. filter (\<lambda>p. orNum (yearFounded p) 9999 = k) (sortPublications lc ''year-asc'' list)
          = filter (\<lambda>p. orNum (yearFounded p) 9999 = k) list)
   \<and> ((\<forall>p\<in>set list. \<forall>y. yearFounded p = Some y \<longrightarrow> 0 < y \<and> y < 9999) \<longrightarrow>
        filter (\<lambda>p. yearFounded p \<noteq> None) (sortPublications lc ''year-asc'' list)
          @ filter (\<lambda>p. yearFounded p = None) (sortPublications lc ''year-asc'' list)
        = sortPublications lc ''year-asc'' list)
   \<and> mset (sortPublications lc ''year-desc'' list) = mset list
   \<and> sorted_wrt (\<lambda>a b. orNum (yearFounded a) 0 \<ge> orNum (yearFounded b) 0)
        (sortPublications lc ''year-desc'' list)
   \<and> (\<forall>k. filter (\<lambda>p. orNum (yearFounded p) 0 = k) (sortPublications lc ''year-desc'' list)
          = filter (\<lambda>p. orNum (yearFounded p) 0 = k) list)
   \<and> ((\<forall>p\<in>set list. \<forall>y. yearFounded p = Some y \<longrightarrow> 0 < y) \<longrightarrow>
        filter (\<lambda>p. yearFounded p \<noteq> None) (sortPublications lc ''year-desc'' list)
          @ filter (\<lambda>p. yearFounded p = None) (sortPublications lc ''year-desc'' list)
        = sortPublications lc ''year-desc'' list)
   \<and> sortPublications lc ''year-asc''
        [(blank 1)\<lparr>yearFounded := Some 1920\<rparr>, blank 2, (blank 3)\<lparr>yearFounded := Some 1890\<rparr>]
      = [(blank 3)\<lparr>yearFounded := Some 1890\<rparr>, (blank 1)\<lparr>yearFounded := Some 1920\<rparr>, blank 2]"
proof -
  let ?asc = "sortPublications lc ''year-asc'' list"
  let ?desc = "sortPublications lc ''year-desc'' list"
  let ?ka = "\<lambda>p. orNum (yearFounded p) 9999"
  let ?kd = "\<lambda>p. orNum (yearFounded p) 0"
  have set_asc: "set ?asc = set list" and set_desc: "set ?desc = set list"
    using mset_sortPublications[of lc _ list] by (metis set_mset_mset)+
  have stable_asc: "\<forall>k. filter (\<lambda>p. ?ka p = k) ?asc = filter (\<lambda>p. ?ka p = k) list"
    by (simp add: year_asc_sort_key sort_key_stable)
  have stable_desc: "\<forall>k. filter (\<lambda>p. ?kd p = k) ?desc = filter (\<lambda>p. ?kd p = k) list"
  proof
    fix k
    have "filter (\<lambda>p. - ?kd p = - k) (sort_key (\<lambda>p. - ?kd p) list)
            = filter (\<lambda>p. - ?kd p = - k) list"
      by (rule sort_key_stable)
    then show "filter (\<lambda>p. ?kd p = k) ?desc = filter (\<lambda>p. ?kd p = k) list"
      by (simp add: year_desc_sort_key)
  qed
  have last_asc: "filter (\<lambda>p. yearFounded p \<noteq> None) ?asc @ filter (\<lambda>p. yearFounded p = None) ?asc
                    = ?asc"
    if range: "\<forall>p\<in>set list. \<forall>y. yearFounded p = Some y \<longrightarrow> 0 < y \<and> y < 9999"
  proof -
    have key: "(?ka p = 9999) = (yearFounded p = None)" "?ka p \<le> 9999" if "p \<in> set ?asc" for p
      using that range set_asc by (cases "yearFounded p"; fastforce)+
    have "filter (\<lambda>p. ?ka p \<noteq> 9999) ?asc @ filter (\<lambda>p. ?ka p = 9999) ?asc = ?asc"
      using sorted_year_asc key(2) by (intro top_keys_last) auto
    moreover have "filter (\<lambda>p. ?ka p \<noteq> 9999) ?asc = filter (\<lambda>p. yearFounded p \<noteq> None) ?asc"
      by (rule filter_cong) (simp_all add: key(1))
    moreover have "filter (\<lambda>p. ?ka p = 9999) ?asc = filter (\<lambda>p. yearFounded p = None) ?asc"
      by (rule filter_cong) (simp_all add: key(1))
    ultimately show ?thesis by simp
  qed
  have last_desc: "filter (\<lambda>p. yearFounded p \<noteq> None) ?desc @ filter (\<lambda>p. yearFounded p = None) ?desc
                    = ?desc"
    if range: "\<forall>p\<in>set list. \<forall>y. yearFounded p = Some y \<longrightarrow> 0 < y"
  proof -
    have key: "(?kd p = 0) = (yearFounded p = None)" "?kd p \<ge> 0" if "p \<in> set ?desc" for p
      using that range set_desc by (cases "yearFounded p"; fastforce)+
    have "filter (\<lambda>p. ?kd p \<noteq> 0) ?desc @ filter (\<lambda>p. ?kd p = 0) ?desc = ?desc"
      using sorted_year_desc key(2) by (intro bottom_keys_last) auto
    moreover have "filter (\<lambda>p. ?kd p \<noteq> 0) ?desc = filter (\<lambda>p. yearFounded p \<noteq> None) ?desc"
      by (rule filter_cong) (simp_all add: key(1))
    moreover have "filter (\<lambda>p. ?kd p = 0) ?desc = filter (\<lambda>p. yearFounded p = None) ?desc"
      by (rule filter_cong) (simp_all add: key(1))
    ultimately show ?thesis by simp
  qed
  have scenario: "sortPublications lc ''year-asc''
        [(blank 1)\<lparr>yearFounded := Some 1920\<rparr>, blank 2, (blank 3)\<lparr>yearFounded := Some 1890\<rparr>]
      = [(blank 3)\<lparr>yearFounded := Some 1890\<rparr>, (blank 1)\<lparr>yearFounded := Some 1920\<rparr>, blank 2]"
    by (simp add: sortPublications_def arraySort_def blank_def)
  show ?thesis
    using mset_sortPublications sorted_year_asc sorted_year_desc stable_asc stable_desc
      last_asc last_desc scenario
    by blast
qed

theorem sortPublications_year_order_witness:
  "filter (\<lambda>p. yearFounded p \<noteq> None)
        (sortPublications (\<lambda>a b. 0) ''year-asc''
           [(blank 1)\<lparr>yearFounded := Some 1920\<rparr>, blank 2, (blank 3)\<lparr>yearFounded := Some 1890\<rparr>])
     @ filter (\<lambda>p. yearFounded p = None)
        (sortPublications (\<lambda>a b. 0) ''year-asc''
           [(blank 1)\<lparr>yearFounded := Some 1920\<rparr>, blank 2, (blank 3)\<lparr>yearFounded := Some 1890\<rparr>])
     = [(blank 3)\<lparr>yearFounded := Some 1890\<rparr>, (blank 1)\<lparr>yearFounded := Some 1920\<rparr>, blank 2]
   \<and> filter (\<lambda>p. yearFounded p \<noteq> None)
        (sortPublications (\<lambda>a b. 0) ''year-desc''
           [(blank 1)\<lparr>yearFounded := Some 1920\<rparr>, blank 2, (blank 3)\<lparr>yearFounded := Some 1890\<rparr>])
     @ filter (\<lambda>p. yearFounded p = None)
        (sortPublications (\<lambda>a b. 0) ''year-desc''
           [(blank 1)\<lparr>yearFounded := Some 1920\<rparr>, blank 2, (blank 3)\<lparr>yearFounded := Some 1890\<rparr>])
     = sortPublications (\<lambda>a b. 0) ''year-desc''
           [(blank 1)\<lparr>yearFounded := Some 1920\<rparr>, blank 2, (blank 3)\<lparr>yearFounded := Some 1890\<rparr>]"
proof -
  let ?L = "[(blank 1)\<lparr>yearFounded := Some 1920\<rparr>, blank 2, (blank 3)\<lparr>yearFounded := Some 1890\<rparr>]"
  have h: "\<forall>p\<in>set ?L. \<forall>y. yearFounded p = Some y \<longrightarrow> 0 < y \<and> y < 9999"
    by (simp add: blank_def)
  then have h2: "\<forall>p\<in>set ?L. \<forall>y. yearFounded p = Some y \<longrightarrow> 0 < y"
    by blast
  from sortPublications_year_order[of "\<lambda>a b. 0" ?L] h h2 show ?thesis
    by (metis (no_types, lifting))
qed

text \<open>
  Claim C9.  With a sort key other than \<^verbatim>\<open>"name"\<close>, \<^verbatim>\<open>"year-asc"\<close>,
  \<^verbatim>\<open>"year-desc"\<close> and \<^verbatim>\<open>"city"\<close> the sort of either controller returns the
  list it was given, in the same order; the function has no failing branch.
\<close>

theorem sortPublications_unknown_key:
  "key \<notin> {''name'', ''year-asc'', ''year-desc'', ''city''} \<Longrightarrow>
     sortPublications lc key list = list
     \<and> app_sortPublications lc (st\<lparr>sortBy := key\<rparr>) = st\<lparr>sortBy := key\<rparr>"
  by (simp add: sortPublications_def app_sortPublications_def)

theorem sortPublications_unknown_key_witness:
  "''bogus'' \<notin> {''name'', ''year-asc'', ''year-desc'', ''city''}
   \<and> sortPublications (\<lambda>a b. 0) ''bogus'' [blank 2, blank 1] = [blank 2, blank 1]
   \<and> app_sortPublications (\<lambda>a b. 0) (app_initialState\<lparr>sortBy := ''bogus''\<rparr>)
       = app_initialState\<lparr>sortBy := ''bogus''\<rparr>"
proof -
  have h: "''bogus'' \<notin> {''name'', ''year-asc'', ''year-desc'', ''city''}" by simp
  from sortPublications_unknown_key[OF h, of "\<lambda>a b. 0" "[blank 2, blank 1]" app_initialState] h
  show ?thesis by simp
qed

section \<open>Properties of the decade aggregation\<close>

lemma decades_windows:
  "map (\<lambda>d. (start d, end' d)) decades
     = map (\<lambda>i. (1880 + 10 * int i, 1889 + 10 * int i)) [0..<15]"
  by (simp add: decades_def upt_rec)

lemma decades_bounds: "\<forall>d\<in>set decades. 0 < start d \<and> start d \<le> 2026 \<and> end' d < 9999"
  by (simp add: decades_def)

lemma length_decades: "length decades = 15"
  by (simp add: decades_def)

lemma decades_nth:
  assumes "i < 15"
  shows "start (decades ! i) = 1880 + 10 * int i" "end' (decades ! i) = 1889 + 10 * int i"
proof -
  have "map (\<lambda>d. (start d, end' d)) decades ! i
          = map (\<lambda>i. (1880 + 10 * int i, 1889 + 10 * int i)) [0..<15] ! i"
    by (simp only: decades_windows)
  then have "(start (decades ! i), end' (decades ! i)) = (1880 + 10 * int i, 1889 + 10 * int i)"
    using assms by (simp add: length_decades del: upt_Suc)
  then show "start (decades ! i) = 1880 + 10 * int i" "end' (decades ! i) = 1889 + 10 * int i"
    by simp_all
qed

lemma bucket_nth:
  assumes "i < 15"
  shows "calculateDecadeData pubs ! i =
           \<lparr>label = label (decades ! i), start = start (decades ! i), end' = end' (decades ! i),
            activeCount = length (filter (activeIn (decades ! i)) pubs),
            foundedCount = length (filter (foundedIn (decades ! i)) pubs),
            activePublications = take 5 (filter (activeIn (decades ! i)) pubs)\<rparr>"
  using assms by (simp add: calculateDecadeData_def length_decades)

lemma activeIn_unfold:
  "activeIn d p =
     ((case yearFounded p of None \<Rightarrow> 9999 | Some y \<Rightarrow> if y = 0 then 9999 else y) \<le> end' d
      \<and> (case yearCeased p of None \<Rightarrow> 2026 | Some y \<Rightarrow> if y = 0 then 2026 else y) \<ge> start d)"
  by (cases "yearFounded p"; cases "yearCeased p") (simp_all add: activeIn_def)

lemma foundedIn_unfold:
  "foundedIn d p = (\<exists>y. yearFounded p = Some y \<and> start d \<le> y \<and> y \<le> end' d)"
  by (cases "yearFounded p") (simp_all add: foundedIn_def)

lemma no_year_no_window:
  assumes "yearFounded p = None" and "d \<in> set decades"
  shows "\<not> activeIn d p" "\<not> foundedIn d p"
  using assms decades_bounds by (auto simp: activeIn_def foundedIn_def)

text \<open>
  Claim C5.  calculateDecadeData returns one bucket for each of the 15 windows
  1880-1889, ..., 2020-2029.  The bucket's activeCount is the number of records whose
  founding year, 9999 when the record has none, is at most the window's end and whose
  ceasing year, 2026 when the record has none, is at least the window's start; a year
  counts as not there when the field is absent or holds the falsy 0, which is how the
  code defaults it.  Its foundedCount is the number of records whose founding year lies
  in the window, ends included.  A record founded 1875 and ceased 1920 adds one to the
  activeCount of the 1880s and nothing to its foundedCount; a record with no founding
  year adds nothing to any count.
\<close>

theorem calculateDecadeData_counts:
  "length (calculateDecadeData pubs) = 15
   \<and> (\<forall>i<15.
        start (calculateDecadeData pubs ! i) = 1880 + 10 * int i
        \<and> end' (calculateDecadeData pubs ! i) = start (calculateDecadeData pubs ! i) + 9
        \<and> activeCount (calculateDecadeData pubs ! i)
            = length (filter (\<lambda>p.
                (case yearFounded p of None \<Rightarrow> 9999 | Some y \<Rightarrow> if y = 0 then 9999 else y)
                   \<le> end' (calculateDecadeData pubs ! i)
                \<and> (case yearCeased p of None \<Rightarrow> 2026 | Some y \<Rightarrow> if y = 0 then 2026 else y)
                   \<ge> start (calculateDecadeData pubs ! i)) pubs)
        \<and> foundedCount (calculateDecadeData pubs ! i)
            = length (filter (\<lambda>p. \<exists>y. yearFounded p = Some y
                \<and> start (calculateDecadeData pubs ! i) \<le> y
                \<and> y \<le> end' (calculateDecadeData pubs ! i)) pubs))
   \<and> (yearFounded p = Some 1875 \<and> yearCeased p = Some 1920 \<longrightarrow>
        activeCount (calculateDecadeData (xs @ p # ys) ! 0)
          = activeCount (calculateDecadeData (xs @ ys) ! 0) + 1
        \<and> foundedCount (calculateDecadeData (xs @ p # ys) ! 0)
          = foundedCount (calculateDecadeData (xs @ ys) ! 0))
   \<and> (yearFounded p = None \<longrightarrow>
        map activeCount (calculateDecadeData (xs @ p # ys))
          = map activeCount (calculateDecadeData (xs @ ys))
        \<and> map foundedCount (calculateDecadeData (xs @ p # ys))
          = map foundedCount (calculateDecadeData (xs @ ys)))"
proof -
  have len: "length (calculateDecadeData pubs) = 15"
    by (simp add: calculateDecadeData_def length_decades)
  have buckets: "\<forall>i<15.
        start (calculateDecadeData pubs ! i) = 1880 + 10 * int i
        \<and> end' (calculateDecadeData pubs ! i) = start (calculateDecadeData pubs ! i) + 9
        \<and> activeCount (calculateDecadeData pubs ! i)
            = length (filter (\<lambda>p.
                (case yearFounded p of None \<Rightarrow> 9999 | Some y \<Rightarrow> if y = 0 then 9999 else y)
                   \<le> end' (calculateDecadeData pubs ! i)
                \<and> (case yearCeased p of None \<Rightarrow> 2026 | Some y \<Rightarrow> if y = 0 then 2026 else y)
                   \<ge> start (calculateDecadeData pubs ! i)) pubs)
        \<and> foundedCount (calculateDecadeData pubs ! i)
            = length (filter (\<lambda>p. \<exists>y. yearFounded p = Some y
                \<and> start (calculateDecadeData pubs ! i) \<le> y
                \<and> y \<le> end' (calculateDecadeData pubs ! i)) pubs)"
  proof (intro allI impI)
    fix i :: nat
    assume i: "i < 15"
    show "start (calculateDecadeData pubs ! i) = 1880 + 10 * int i
        \<and> end' (calculateDecadeData pubs ! i) = start (calculateDecadeData pubs ! i) + 9
        \<and> activeCount (calculateDecadeData pubs ! i)
            = length (filter (\<lambda>p.
                (case yearFounded p of None \<Rightarrow> 9999 | Some y \<Rightarrow> if y = 0 then 9999 else y)
                   \<le> end' (calculateDecadeData pubs ! i)
                \<and> (case yearCeased p of None \<Rightarrow> 2026 | Some y \<Rightarrow> if y = 0 then 2026 else y)
                   \<ge> start (calculateDecadeData pubs ! i)) pubs)
        \<and> foundedCount (calculateDecadeData pubs ! i)
            = length (filter (\<lambda>p. \<exists>y. yearFounded p = Some y
                \<and> start (calculateDecadeData pubs ! i) \<le> y
                \<and> y \<le> end' (calculateDecadeData pubs ! i)) pubs)"
      proof -
      have a: "activeIn (decades ! i) = (\<lambda>p.
          (case yearFounded p of None \<Rightarrow> 9999 | Some y \<Rightarrow> if y = 0 then 9999 else y)
             \<le> end' (decades ! i)
          \<and> (case yearCeased p of None \<Rightarrow> 2026 | Some y \<Rightarrow> if y = 0 then 2026 else y)
             \<ge> start (decades ! i))"
        by (rule ext) (rule activeIn_unfold)
      have f: "foundedIn (decades ! i) = (\<lambda>p. \<exists>y. yearFounded p = Some y
          \<and> start (decades ! i) \<le> y \<and> y \<le> end' (decades ! i))"
        by (rule ext) (rule foundedIn_unfold)
      show ?thesis
        by (simp add: bucket_nth[OF i] a f) (simp add: decades_nth[OF i])
    qed
  qed
  have first: "start (decades ! 0) = 1880" "end' (decades ! 0) = 1889"
    using decades_nth[of 0] by simp_all
  have scen: "activeCount (calculateDecadeData (xs @ p # ys) ! 0)
          = activeCount (calculateDecadeData (xs @ ys) ! 0) + 1
        \<and> foundedCount (calculateDecadeData (xs @ p # ys) ! 0)
          = foundedCount (calculateDecadeData (xs @ ys) ! 0)"
    if "yearFounded p = Some 1875 \<and> yearCeased p = Some 1920"
    using that by (simp add: bucket_nth activeIn_def foundedIn_def first)
  have none: "map activeCount (calculateDecadeData (xs @ p # ys))
          = map activeCount (calculateDecadeData (xs @ ys))
        \<and> map foundedCount (calculateDecadeData (xs @ p # ys))
          = map foundedCount (calculateDecadeData (xs @ ys))"
    if "yearFounded p = None"
    using no_year_no_window[OF that] by (simp add: calculateDecadeData_def)
  from len buckets scen none show ?thesis by blast
qed

theorem calculateDecadeData_counts_witness:
  "(0::nat) < 15
   \<and> start (calculateDecadeData [(blank 1)\<lparr>yearFounded := Some 1875, yearCeased := Some 1920\<rparr>,
                                  blank 2] ! 0) = 1880
   \<and> yearFounded ((blank 1)\<lparr>yearFounded := Some 1875, yearCeased := Some 1920\<rparr>) = Some 1875
   \<and> yearCeased ((blank 1)\<lparr>yearFounded := Some 1875, yearCeased := Some 1920\<rparr>) = Some 1920
   \<and> activeCount (calculateDecadeData
        ([] @ (blank 1)\<lparr>yearFounded := Some 1875, yearCeased := Some 1920\<rparr> # [blank 2]) ! 0) = 1
   \<and> foundedCount (calculateDecadeData
        ([] @ (blank 1)\<lparr>yearFounded := Some 1875, yearCeased := Some 1920\<rparr> # [blank 2]) ! 0) = 0
   \<and> yearFounded (blank 2) = None
   \<and> map activeCount (calculateDecadeData ([] @ blank 2 # [])) = replicate 15 0
   \<and> map foundedCount (calculateDecadeData ([] @ blank 2 # [])) = replicate 15 0"
proof -
  let ?p = "(blank 1)\<lparr>yearFounded := Some 1875, yearCeased := Some 1920\<rparr>"
  have h1: "yearFounded ?p = Some 1875 \<and> yearCeased ?p = Some 1920" by (simp add: blank_def)
  have h2: "yearFounded (blank 2) = None" by (simp add: blank_def)
  have base: "activeCount (calculateDecadeData ([] @ [blank 2]) ! 0) = 0"
       "foundedCount (calculateDecadeData ([] @ [blank 2]) ! 0) = 0"
    by (simp_all add: calculateDecadeData_def decades_def activeIn_def foundedIn_def blank_def)
  have empty: "map activeCount (calculateDecadeData ([] @ [])) = replicate 15 0"
      "map foundedCount (calculateDecadeData ([] @ [])) = replicate 15 0"
    by (simp_all add: calculateDecadeData_def decades_def numeral_eq_Suc)
  from calculateDecadeData_counts[of "[?p, blank 2]" ?p "[]" "[blank 2]"] h1 base
  have a: "start (calculateDecadeData [?p, blank 2] ! 0) = 1880"
      "activeCount (calculateDecadeData ([] @ ?p # [blank 2]) ! 0) = 1"
      "foundedCount (calculateDecadeData ([] @ ?p # [blank 2]) ! 0) = 0"
    by simp_all
  from calculateDecadeData_counts[of "[]" "blank 2" "[]" "[]"] h2 empty
  have b: "map activeCount (calculateDecadeData ([] @ blank 2 # [])) = replicate 15 0"
       "map foundedCount (calculateDecadeData ([] @ blank 2 # [])) = replicate 15 0"
    by simp_all
  from a b h1 h2 show ?thesis by simp
qed

lemma length_filter_mono:
  assumes "\<And>x. x \<in> set xs \<Longrightarrow> P x \<Longrightarrow> Q x"
  shows "length (filter P xs) \<le> length (filter Q xs)"
  using assms by (induction xs) auto

text \<open>
  Claim C10.  When every record that has both years ceased no earlier than it was
  founded, every bucket has at least as many active records as founded ones.
\<close>

theorem founded_le_active:
  assumes "\<forall>p\<in>set pubs. \<forall>f c. yearFounded p = Some f \<and> yearCeased p = Some c \<longrightarrow> f \<le> c"
  shows "\<forall>b\<in>set (calculateDecadeData pubs). foundedCount b \<le> activeCount b"
proof -
  have imp: "activeIn d p" if d: "d \<in> set decades" and p: "p \<in> set pubs" and f: "foundedIn d p"
    for d p
  proof -
    from f obtain y where y: "yearFounded p = Some y" "start d \<le> y" "y \<le> end' d"
      by (auto simp: foundedIn_unfold)
    from d decades_bounds have b: "0 < start d" "start d \<le> 2026" by auto
    show ?thesis
    proof (cases "yearCeased p")
      case None
      with y b show ?thesis by (simp add: activeIn_def)
    next
      case (Some c)
      with assms p y have "y \<le> c" by blast
      with Some y b show ?thesis by (simp add: activeIn_def)
    qed
  qed
  show ?thesis
    by (auto simp: calculateDecadeData_def intro!: length_filter_mono imp)
qed

theorem founded_le_active_witness:
  "foundedCount (calculateDecadeData
          [(blank 1)\<lparr>yearFounded := Some 1885, yearCeased := Some 1920\<rparr>, blank 2] ! 0) = 1
   \<and> list_all (\<lambda>b. foundedCount b \<le> activeCount b)
        (calculateDecadeData
          [(blank 1)\<lparr>yearFounded := Some 1885, yearCeased := Some 1920\<rparr>, blank 2])"
proof -
  let ?L = "[(blank 1)\<lparr>yearFounded := Some 1885, yearCeased := Some 1920\<rparr>, blank 2]"
  have h: "\<forall>p\<in>set ?L. \<forall>f c. yearFounded p = Some f \<and> yearCeased p = Some c \<longrightarrow> f \<le> c"
    by (simp add: blank_def)
  have c: "foundedCount (calculateDecadeData ?L ! 0) = 1"
    by (simp add: calculateDecadeData_def decades_def foundedIn_def blank_def)
  from founded_le_active[OF h] c show ?thesis
    by (simp add: list_all_iff)
qed

section \<open>Properties of the paginator\<close>

text \<open>
  Claim C7.  A render pass of the archive page draws the first page times perPage
  records of the filtered list; the next page draws a list that this one is a prefix
  of; the load-more control is shown exactly when page times perPage is below the
  number of filtered records.  The home page does the same for a page and a page size
  of at least 1 (its page size is the constant 24).
\<close>

theorem load_more_prefix:
  "toShow (renderResults st) = take (page st * perPage st) (filtered st)
   \<and> prefix (toShow (renderResults st)) (toShow (renderResults (loadMore st)))
   \<and> loadMoreShown (renderResults st) = (page st * perPage st < length (filtered st))
   \<and> (1 \<le> currentPage ast \<and> 1 \<le> app_perPage ast \<longrightarrow>
        toShow (renderPublications ast)
          = take (currentPage ast * app_perPage ast) (filteredPublications ast)
        \<and> prefix (toShow (renderPublications ast)) (toShow (renderPublications (app_loadMore ast)))
        \<and> loadMoreShown (renderPublications ast)
          = (currentPage ast * app_perPage ast < length (filteredPublications ast)))"
proof -
  have take_prefix: "prefix (take m xs) (take (m + k) xs)" for m k and xs :: "publication list"
    by (metis le_add1 take_is_prefix take_take min.absorb1)
  have a1: "toShow (renderResults st) = take (page st * perPage st) (filtered st)"
    by (simp add: renderResults_def Let_def)
  have a1': "toShow (renderResults (loadMore st))
               = take (page st * perPage st + perPage st) (filtered st)"
    by (simp add: renderResults_def loadMore_def Let_def add.commute)
  have a2: "prefix (toShow (renderResults st)) (toShow (renderResults (loadMore st)))"
    unfolding a1 a1' by (rule take_prefix)
  have a3: "loadMoreShown (renderResults st) = (page st * perPage st < length (filtered st))"
    by (auto simp: renderResults_def Let_def)
  have b: "toShow (renderPublications ast)
          = take (currentPage ast * app_perPage ast) (filteredPublications ast)
        \<and> prefix (toShow (renderPublications ast)) (toShow (renderPublications (app_loadMore ast)))
        \<and> loadMoreShown (renderPublications ast)
          = (currentPage ast * app_perPage ast < length (filteredPublications ast))"
    if pos: "1 \<le> currentPage ast \<and> 1 \<le> app_perPage ast"
  proof -
    have b1: "toShow (renderPublications ast)
          = take (currentPage ast * app_perPage ast) (filteredPublications ast)"
      by (simp add: renderPublications_def Let_def)
    have b1': "toShow (renderPublications (app_loadMore ast))
          = take (currentPage ast * app_perPage ast + app_perPage ast) (filteredPublications ast)"
      by (simp add: renderPublications_def app_loadMore_def Let_def add.commute)
    have b2: "prefix (toShow (renderPublications ast))
                (toShow (renderPublications (app_loadMore ast)))"
      unfolding b1 b1' by (rule take_prefix)
    from pos have "0 < currentPage ast * app_perPage ast" by simp
    then have b3: "loadMoreShown (renderPublications ast)
          = (currentPage ast * app_perPage ast < length (filteredPublications ast))"
      by (auto simp: renderPublications_def Let_def)
    from b1 b2 b3 show ?thesis by simp
  qed
  from a1 a2 a3 b show ?thesis by blast
qed

theorem load_more_prefix_witness:
  "(1::nat) \<le> currentPage (app_initialState\<lparr>filteredPublications := map blank [1, 2, 3], app_perPage := 2\<rparr>)
   \<and> (1::nat) \<le> app_perPage (app_initialState\<lparr>filteredPublications := map blank [1, 2, 3], app_perPage := 2\<rparr>)
   \<and> toShow (renderPublications
        (app_initialState\<lparr>filteredPublications := map blank [1, 2, 3], app_perPage := 2\<rparr>))
      = [blank 1, blank 2]
   \<and> loadMoreShown (renderPublications
        (app_initialState\<lparr>filteredPublications := map blank [1, 2, 3], app_perPage := 2\<rparr>))"
proof -
  let ?s = "app_initialState\<lparr>filteredPublications := map blank [1, 2, 3], app_perPage := 2\<rparr>"
  have h: "1 \<le> currentPage ?s \<and> 1 \<le> app_perPage ?s" by (simp add: app_initialState_def)
  from load_more_prefix[of initialState ?s] h show ?thesis
    by (simp add: app_initialState_def)
qed

section \<open>Properties of the filters\<close>

lemma filterE_total:
  assumes "\<And>x. x \<in> set xs \<Longrightarrow> P x = Inr (Q x)"
  shows "filterE P xs = Inr (filter Q xs)"
  using assms by (induction xs) simp_all

lemma lower_not_upper:
  "d \<in> set ''abcdefghijklmnopqrstuvwxyz'' \<Longrightarrow>
     map_of (zip ''ABCDEFGHIJKLMNOPQRSTUVWXYZ'' ''abcdefghijklmnopqrstuvwxyz'') d = None"
  by (simp, elim disjE; simp)

lemma toLowerCaseChar_idem: "toLowerCaseChar (toLowerCaseChar c) = toLowerCaseChar c"
proof (cases "map_of (zip ''ABCDEFGHIJKLMNOPQRSTUVWXYZ'' ''abcdefghijklmnopqrstuvwxyz'') c")
  case None
  then show ?thesis by (simp add: toLowerCaseChar_def)
next
  case (Some d)
  then have "(c, d) \<in> set (zip ''ABCDEFGHIJKLMNOPQRSTUVWXYZ'' ''abcdefghijklmnopqrstuvwxyz'')"
    by (rule map_of_SomeD)
  then have "d \<in> set ''abcdefghijklmnopqrstuvwxyz''"
    by (rule set_zip_rightD)
  then have "map_of (zip ''ABCDEFGHIJKLMNOPQRSTUVWXYZ'' ''abcdefghijklmnopqrstuvwxyz'') d = None"
    by (rule lower_not_upper)
  with Some show ?thesis by (simp only: toLowerCaseChar_def option.case)
qed

lemma toLowerCase_idem: "toLowerCase (toLowerCase s) = toLowerCase s"
  by (simp add: toLowerCase_def toLowerCaseChar_idem)

lemma toLowerCase_Nil_iff: "(toLowerCase s = []) = (s = [])"
  by (simp add: toLowerCase_def)

lemma includesStr_Nil: "includesStr s []"
  by (induction s) simp_all

lemma includesStr_iff: "includesStr s q = (\<exists>pre post. s = pre @ q @ post)"
proof (induction s)
  case Nil
  then show ?case by auto
next
  case (Cons c cs)
  show ?case
  proof
    assume "includesStr (c # cs) q"
    then consider "prefix q (c # cs)" | "includesStr cs q" by auto
    then show "\<exists>pre post. c # cs = pre @ q @ post"
    proof cases
      case 1
      then obtain post where "c # cs = q @ post" by (auto simp: prefix_def)
      then have "c # cs = [] @ q @ post" by simp
      then show ?thesis by blast
    next
      case 2
      with Cons obtain pre post where "cs = pre @ q @ post" by auto
      then have "c # cs = (c # pre) @ q @ post" by simp
      then show ?thesis by blast
    qed
  next
    assume "\<exists>pre post. c # cs = pre @ q @ post"
    then obtain pre post where eq: "c # cs = pre @ q @ post" by auto
    show "includesStr (c # cs) q"
    proof (cases pre)
      case Nil
      with eq have "prefix q (c # cs)" by (simp add: prefix_def)
      then show ?thesis by simp
    next
      case (Cons a pre')
      with eq have "cs = pre' @ q @ post" by simp
      with Cons.IH show ?thesis by auto
    qed
  qed
qed

lemma fieldIncludes_nonempty:
  "q \<noteq> [] \<Longrightarrow> fieldIncludes f q = (\<exists>s. f = Some s \<and> includesStr (toLowerCase s) q)"
proof (cases f)
  case None
  then show ?thesis by (simp add: fieldIncludes_def)
next
  case (Some s)
  assume "q \<noteq> []"
  then have "\<not> includesStr (toLowerCase []) q" by (simp add: toLowerCase_def)
  with Some show ?thesis by (cases "s = []") (simp_all add: fieldIncludes_def)
qed

lemma optIncludes_iff:
  "optIncludes f q = (\<exists>s. f = Some s \<and> includesStr (toLowerCase s) q)"
  by (cases f) (auto simp: optIncludes_def)

lemma bex_optString: "(\<exists>s\<in>set (optString f). P s) = (\<exists>s. f = Some s \<and> P s)"
  by (cases f) (simp_all add: optString_def)

lemma bex_tags:
  "(\<exists>s\<in>set (case ts of None \<Rightarrow> [] | Some xs \<Rightarrow> xs). P s) = (\<exists>xs. ts = Some xs \<and> (\<exists>t\<in>set xs. P t))"
  by (cases ts) simp_all

lemma bex_searchFields:
  assumes "\<And>xs. publishers p \<noteq> Some (PubArr xs)"
  shows "(\<exists>s\<in>set (searchFields p). P s) =
           ((\<exists>s. name p = Some s \<and> P s) \<or> (\<exists>s. city p = Some s \<and> P s)
            \<or> (\<exists>s. primaryFocus p = Some s \<and> P s) \<or> (\<exists>s. missionStatement p = Some s \<and> P s)
            \<or> (\<exists>s. publishers p = Some (PubStr s) \<and> P s)
            \<or> (\<exists>s. historicalNotes p = Some s \<and> P s)
            \<or> (\<exists>xs. tags p = Some xs \<and> (\<exists>t\<in>set xs. P t)))"
proof -
  have pb: "(\<exists>s\<in>set (case publishers p of None \<Rightarrow> [] | Some (PubStr s) \<Rightarrow> [s] | Some (PubArr xs) \<Rightarrow> xs). P s)
              = (\<exists>s. publishers p = Some (PubStr s) \<and> P s)"
    using assms by (cases "publishers p") (auto split: publishers.splits)
  show ?thesis
    unfolding searchFields_def set_append bex_Un bex_optString bex_tags pb by blast
qed

lemma bex_app_searchFields:
  assumes "\<And>xs. publishers p \<noteq> Some (PubArr xs)"
  shows "(\<exists>s\<in>set (app_searchFields p). P s) =
           ((\<exists>s. name p = Some s \<and> P s) \<or> (\<exists>s. city p = Some s \<and> P s)
            \<or> (\<exists>s. primaryFocus p = Some s \<and> P s) \<or> (\<exists>s. missionStatement p = Some s \<and> P s)
            \<or> (\<exists>s. publishers p = Some (PubStr s) \<and> P s))"
proof -
  have pb: "(\<exists>s\<in>set (case publishers p of None \<Rightarrow> [] | Some (PubStr s) \<Rightarrow> [s] | Some (PubArr xs) \<Rightarrow> xs). P s)
              = (\<exists>s. publishers p = Some (PubStr s) \<and> P s)"
    using assms by (cases "publishers p") (auto split: publishers.splits)
  show ?thesis
    unfolding app_searchFields_def set_append bex_Un bex_optString pb by blast
qed

lemma tagsInclude_iff:
  "tagsInclude ts q = (\<exists>xs. ts = Some xs \<and> (\<exists>t\<in>set xs. includesStr (toLowerCase t) q))"
  by (cases ts) (simp_all add: tagsInclude_def list_ex_iff)

lemma publishersIncludes_no_array:
  assumes "\<And>xs. pb \<noteq> Some (PubArr xs)" and "q \<noteq> []"
  shows "publishersIncludes pb q = Inr (\<exists>s. pb = Some (PubStr s) \<and> includesStr (toLowerCase s) q)"
proof (cases pb)
  case None
  then show ?thesis by (simp add: publishersIncludes_def)
next
  case (Some a)
  with assms obtain s where a: "a = PubStr s" by (cases a) auto
  have "\<not> includesStr (toLowerCase []) q" using assms(2) by (simp add: toLowerCase_def)
  with Some a show ?thesis by (cases "s = []") (simp_all add: publishersIncludes_def)
qed

lemma app_publishersIncludes_no_array:
  assumes "\<And>xs. pb \<noteq> Some (PubArr xs)"
  shows "app_publishersIncludes pb q = Inr (\<exists>s. pb = Some (PubStr s) \<and> includesStr (toLowerCase s) q)"
proof (cases pb)
  case None
  then show ?thesis by (simp add: app_publishersIncludes_def)
next
  case (Some a)
  with assms obtain s where a: "a = PubStr s" by (cases a) auto
  with Some a show ?thesis by (simp add: app_publishersIncludes_def)
qed

lemma searchMatches_no_array:
  assumes "\<And>xs. publishers p \<noteq> Some (PubArr xs)" and "q \<noteq> []"
  shows "searchMatches p q = Inr (\<exists>s\<in>set (searchFields p). includesStr (toLowerCase s) q)"
  unfolding bex_searchFields[OF assms(1)] searchMatches_def
    publishersIncludes_no_array[OF assms] fieldIncludes_nonempty[OF assms(2)] tagsInclude_iff
  by (simp split: bool.splits) blast

lemma app_searchMatches_no_array:
  assumes "\<And>xs. publishers p \<noteq> Some (PubArr xs)"
  shows "app_searchMatches p q = Inr (\<exists>s\<in>set (app_searchFields p). includesStr (toLowerCase s) q)"
  unfolding bex_app_searchFields[OF assms(1)] app_searchMatches_def
    app_publishersIncludes_no_array[OF assms] optIncludes_iff
  by simp blast

lemma sortPublications_Nil: "sortPublications lc key [] = []"
  by (simp add: sortPublications_def arraySort_def)

lemma sortPublications_single: "sortPublications lc key [p] = [p]"
  by (simp add: sortPublications_def arraySort_def)

lemma applyFilters_search_only:
  assumes noarr: "\<forall>p\<in>set (publications st). \<forall>xs. publishers p \<noteq> Some (PubArr xs)"
    and others: "cityFilter (filters st) = ''all''" "decadeFilter (filters st) = ''all''"
      "status (filters st) = ''all''"
  shows "applyFilters lc st =
           Inr (st\<lparr>filtered := sortPublications lc (sort_st st)
                  (filter (\<lambda>p. search (filters st) = []
                                \<or> (\<exists>s\<in>set (searchFields p).
                                     includesStr (toLowerCase s) (toLowerCase (search (filters st)))))
                     (publications st))\<rparr>)"
proof (cases "search (filters st) = []")
  case True
  with others show ?thesis by (simp add: applyFilters_def Let_def)
next
  case False
  then have q: "toLowerCase (search (filters st)) \<noteq> []" by (simp add: toLowerCase_Nil_iff)
  have "filterE (\<lambda>pub. searchMatches pub (toLowerCase (search (filters st)))) (publications st)
          = Inr (filter (\<lambda>p. \<exists>s\<in>set (searchFields p).
                   includesStr (toLowerCase s) (toLowerCase (search (filters st)))) (publications st))"
    using noarr by (intro filterE_total searchMatches_no_array q) auto
  with False others show ?thesis by (simp add: applyFilters_def Let_def)
qed

lemma app_applyFilters_search_only:
  assumes noarr: "\<forall>p\<in>set (app_publications st). \<forall>xs. publishers p \<noteq> Some (PubArr xs)"
    and others: "cityFilter (app_filters st) = ''all''" "decadeFilter (app_filters st) = ''all''"
      "status (app_filters st) = ''all''" "format (app_filters st) = ''all''"
  shows "app_applyFilters lc st =
           Inr (st\<lparr>filteredPublications := sortPublications lc (sortBy st)
                  (filter (\<lambda>p. search (app_filters st) = []
                                \<or> (\<exists>s\<in>set (app_searchFields p).
                                     includesStr (toLowerCase s) (search (app_filters st))))
                     (app_publications st))\<rparr>)"
proof (cases "search (app_filters st) = []")
  case True
  with others show ?thesis by (simp add: app_applyFilters_def app_sortPublications_def Let_def)
next
  case False
  have "filterE (\<lambda>pub. app_searchMatches pub (search (app_filters st))) (app_publications st)
          = Inr (filter (\<lambda>p. \<exists>s\<in>set (app_searchFields p).
                   includesStr (toLowerCase s) (search (app_filters st))) (app_publications st))"
    using noarr by (intro filterE_total app_searchMatches_no_array) auto
  with False others show ?thesis
    by (simp add: app_applyFilters_def app_sortPublications_def Let_def)
qed

text \<open>
  On the archive page a typed query reaches the filter trimmed and lower-cased, and the
  records kept are exactly those with the query inside one of the seven lower-cased
  fields; a query of white space alone keeps every record.
\<close>

lemma applyFilters_search:
  assumes "\<forall>p\<in>set (publications st). \<forall>xs. publishers p \<noteq> Some (PubArr xs)"
    and "cityFilter (filters st) = ''all''" and "decadeFilter (filters st) = ''all''"
    and "status (filters st) = ''all''"
  shows "applyFilters lc st =
           Inr (st\<lparr>filtered := sortPublications lc (sort_st st)
                  (filter (\<lambda>p. search (filters st) = []
                                \<or> (\<exists>s\<in>set (searchFields p).
                                     includesStr (toLowerCase s) (toLowerCase (search (filters st)))))
                     (publications st))\<rparr>)
         \<and> handleSearch lc typed st =
           Inr (st\<lparr>filters := (filters st)\<lparr>search := toLowerCase (trim typed)\<rparr>, page := 1,
                   filtered := sortPublications lc (sort_st st)
                  (filter (\<lambda>p. trim typed = []
                                \<or> (\<exists>s\<in>set (searchFields p).
                                     includesStr (toLowerCase s) (toLowerCase (trim typed))))
                     (publications st))\<rparr>)"
proof -
  let ?st' = "st\<lparr>filters := (filters st)\<lparr>search := toLowerCase (trim typed)\<rparr>, page := 1\<rparr>"
  have "applyFilters lc ?st' =
           Inr (?st'\<lparr>filtered := sortPublications lc (sort_st ?st')
                  (filter (\<lambda>p. search (filters ?st') = []
                                \<or> (\<exists>s\<in>set (searchFields p).
                                     includesStr (toLowerCase s) (toLowerCase (search (filters ?st')))))
                     (publications ?st'))\<rparr>)"
    using assms by (intro applyFilters_search_only) simp_all
  then have "handleSearch lc typed st =
           Inr (st\<lparr>filters := (filters st)\<lparr>search := toLowerCase (trim typed)\<rparr>, page := 1,
                   filtered := sortPublications lc (sort_st st)
                  (filter (\<lambda>p. trim typed = []
                                \<or> (\<exists>s\<in>set (searchFields p).
                                     includesStr (toLowerCase s) (toLowerCase (trim typed))))
                     (publications st))\<rparr>)"
    by (simp add: handleSearch_def toLowerCase_idem toLowerCase_Nil_iff)
  with applyFilters_search_only[OF assms] show ?thesis by simp
qed

lemma applyFilters_search_example:
  "handleSearch (\<lambda>a b. 0) ''  AFRO '' (initialState\<lparr>publications := [scenarioA, blank 2]\<rparr>)
     = Inr (initialState\<lparr>publications := [scenarioA, blank 2],
              filters := defaultFilters\<lparr>search := ''afro''\<rparr>, filtered := [scenarioA]\<rparr>)"
proof -
  let ?st = "initialState\<lparr>publications := [scenarioA, blank 2]\<rparr>"
  have h: "\<forall>p\<in>set (publications ?st). \<forall>xs. publishers p \<noteq> Some (PubArr xs)"
    "cityFilter (filters ?st) = ''all''" "decadeFilter (filters ?st) = ''all''"
    "status (filters ?st) = ''all''"
    by (simp_all add: initialState_def defaultFilters_def scenarioA_def blank_def)
  have t: "trim ''  AFRO '' = ''AFRO''" by (simp add: trim_def isWhiteSpace_def)
  have l: "toLowerCase ''AFRO'' = ''afro''" "toLowerCase ''Afro-American'' = ''afro-american''"
    "toLowerCase ''Jersey City'' = ''jersey city''"
    by (simp_all add: toLowerCase_def toLowerCaseChar_def)
  have m: "\<exists>s\<in>set (searchFields scenarioA). includesStr (toLowerCase s) ''afro''"
    "\<not> (\<exists>s\<in>set (searchFields (blank 2)). includesStr (toLowerCase s) ''afro'')"
    by (simp_all add: l scenarioA_def blank_def searchFields_def optString_def)
  from applyFilters_search[OF h, of "\<lambda>a b. 0" "''  AFRO ''"]
  have "handleSearch (\<lambda>a b. 0) ''  AFRO '' ?st =
           Inr (?st\<lparr>filters := (filters ?st)\<lparr>search := toLowerCase (trim ''  AFRO '')\<rparr>, page := 1,
                   filtered := sortPublications (\<lambda>a b. 0) (sort_st ?st)
                  (filter (\<lambda>p. trim ''  AFRO '' = []
                                \<or> (\<exists>s\<in>set (searchFields p).
                                     includesStr (toLowerCase s) (toLowerCase (trim ''  AFRO ''))))
                     (publications ?st))\<rparr>)"
    by (rule conjunct2)
  then show ?thesis
    using m by (simp add: t l sortPublications_single initialState_def)
qed

lemma applyFilters_status_only:
  assumes "search (filters st) = []" and "cityFilter (filters st) = ''all''"
    and "decadeFilter (filters st) = ''all''"
  shows "applyFilters lc st =
           Inr (st\<lparr>filtered := sortPublications lc (sort_st st)
                  (filter (\<lambda>p. status (filters st) = ''all''
                       \<or> (if status (filters st) = ''active''
                           then isActive p \<noteq> Some False \<and> \<not> truthyNum (yearCeased p)
                           else \<not> (isActive p \<noteq> Some False \<and> \<not> truthyNum (yearCeased p))))
                     (publications st))\<rparr>)"
  using assms by (simp add: applyFilters_def Let_def)

lemma app_applyFilters_status_only:
  assumes "search (app_filters st) = []" and "cityFilter (app_filters st) = ''all''"
    and "decadeFilter (app_filters st) = ''all''" and "format (app_filters st) = ''all''"
  shows "app_applyFilters lc st =
           Inr (st\<lparr>filteredPublications := sortPublications lc (sortBy st)
                  (filter (\<lambda>p. status (app_filters st) = ''all''
                       \<or> isActive p = Some (status (app_filters st) = ''active''))
                     (app_publications st))\<rparr>)"
  using assms by (simp add: app_applyFilters_def app_sortPublications_def Let_def)

lemma scenarioB_archived_empty:
  "applyFilters lc
     (initialState\<lparr>publications := [scenarioA],
                   filters := defaultFilters\<lparr>status := ''archived''\<rparr>\<rparr>)
     = Inr (initialState\<lparr>publications := [scenarioA],
                   filters := defaultFilters\<lparr>status := ''archived''\<rparr>,
                   filtered := []\<rparr>)"
  "app_applyFilters lc
     (app_initialState\<lparr>app_publications := [scenarioA],
                       app_filters := app_defaultFilters\<lparr>status := ''archived''\<rparr>\<rparr>)
     = Inr (app_initialState\<lparr>app_publications := [scenarioA],
                       app_filters := app_defaultFilters\<lparr>status := ''archived''\<rparr>,
                       filteredPublications := []\<rparr>)"
  by (simp_all add: app_applyFilters_def applyFilters_def app_sortPublications_def
        app_initialState_def initialState_def app_defaultFilters_def defaultFilters_def
        scenarioA_def blank_def sortPublications_Nil)

lemma lower_examples:
  "toLowerCase ''Afro-American'' = ''afro-american''"
  "toLowerCase ''Jersey City'' = ''jersey city''"
  "toLowerCase ''The Herald'' = ''the herald''"
  "toLowerCase ''Newark'' = ''newark''"
  "toLowerCase ''Founded by John Smith'' = ''founded by john smith''"
  "toLowerCase ''Civil Rights'' = ''civil rights''"
  "toLowerCase ''The Sentinel'' = ''the sentinel''"
  "toLowerCase ''smith'' = ''smith''"
  "toLowerCase ''civil'' = ''civil''"
  "toLowerCase ''brown'' = ''brown''"
  "toLowerCase '' afro'' = '' afro''"
  by (simp_all add: toLowerCase_def toLowerCaseChar_def)

text \<open>
  Claim C1.  With status \<^verbatim>\<open>"active"\<close> the filter is to keep exactly the records
  whose isActive is not false and that have no yearCeased, with \<^verbatim>\<open>"archived"\<close>
  the others.  The home page compares the stored flag with a boolean by strict equality
  instead.  The record of scenario B, which stores no flag and has not ceased, is kept
  by the archive page under \<^verbatim>\<open>"active"\<close> and dropped by the home page, which
  so shows it under neither status; and the home page keeps under \<^verbatim>\<open>"active"\<close>
  a record flagged active that ceased in 1950.
\<close>

theorem app_applyFilters_status_drift:
  "app_applyFilters lc
     (app_initialState\<lparr>app_publications := [scenarioA],
                       app_filters := app_defaultFilters\<lparr>status := ''active''\<rparr>\<rparr>)
     = Inr (app_initialState\<lparr>app_publications := [scenarioA],
                       app_filters := app_defaultFilters\<lparr>status := ''active''\<rparr>,
                       filteredPublications := []\<rparr>)
   \<and> isActive scenarioA \<noteq> Some False \<and> yearCeased scenarioA = None
   \<and> applyFilters lc
     (initialState\<lparr>publications := [scenarioA],
                   filters := defaultFilters\<lparr>status := ''active''\<rparr>\<rparr>)
     = Inr (initialState\<lparr>publications := [scenarioA],
                   filters := defaultFilters\<lparr>status := ''active''\<rparr>,
                   filtered := [scenarioA]\<rparr>)
   \<and> app_applyFilters lc
     (app_initialState\<lparr>app_publications := [scenarioA\<lparr>isActive := Some True, yearCeased := Some 1950\<rparr>],
                       app_filters := app_defaultFilters\<lparr>status := ''active''\<rparr>\<rparr>)
     = Inr (app_initialState\<lparr>app_publications := [scenarioA\<lparr>isActive := Some True, yearCeased := Some 1950\<rparr>],
                       app_filters := app_defaultFilters\<lparr>status := ''active''\<rparr>,
                       filteredPublications := [scenarioA\<lparr>isActive := Some True, yearCeased := Some 1950\<rparr>]\<rparr>)"
  by (simp add: app_applyFilters_def applyFilters_def app_sortPublications_def
        app_initialState_def initialState_def app_defaultFilters_def defaultFilters_def
        scenarioA_def blank_def sortPublications_Nil sortPublications_single)

text \<open>
  Claim C2.  A search is to keep exactly the records that hold the trimmed, lower-cased
  query in name, city, primaryFocus, missionStatement, publishers, historicalNotes or a
  tag.  The home page reads neither historicalNotes nor the tags: a record that holds
  \<^verbatim>\<open>smith\<close> in its notes and \<^verbatim>\<open>civil\<close> in a tag only is dropped by its
  search for either word, and kept by the archive page.  The archive page trims a
  query where it is typed, not where it filters: the query \<^verbatim>\<open>" afro"\<close> that the address
  \<^verbatim>\<open>?search=+afro\<close> stores drops the record named Afro-American.
\<close>

theorem app_search_misses_notes_and_tags:
  "app_handleSearch lc ''Smith'' (app_initialState\<lparr>app_publications := [herald]\<rparr>)
     = Inr (app_initialState\<lparr>app_publications := [herald],
                              app_filters := app_defaultFilters\<lparr>search := ''smith''\<rparr>,
                              filteredPublications := []\<rparr>)
   \<and> app_handleSearch lc ''civil'' (app_initialState\<lparr>app_publications := [herald]\<rparr>)
     = Inr (app_initialState\<lparr>app_publications := [herald],
                              app_filters := app_defaultFilters\<lparr>search := ''civil''\<rparr>,
                              filteredPublications := []\<rparr>)
   \<and> includesStr (toLowerCase ''Founded by John Smith'') (toLowerCase (trim ''Smith''))
   \<and> includesStr (toLowerCase ''Civil Rights'') (toLowerCase (trim ''civil''))
   \<and> handleSearch lc ''Smith'' (initialState\<lparr>publications := [herald]\<rparr>)
     = Inr (initialState\<lparr>publications := [herald],
                          filters := defaultFilters\<lparr>search := ''smith''\<rparr>,
                          filtered := [herald]\<rparr>)
   \<and> filters (loadStateFromURL ''?search=+afro'' initialState)
       = defaultFilters\<lparr>search := '' afro''\<rparr>
   \<and> includesStr (toLowerCase ''Afro-American'') (toLowerCase (trim '' afro''))
   \<and> applyFilters lc (loadStateFromURL ''?search=+afro'' (initialState\<lparr>publications := [scenarioA]\<rparr>))
     = Inr (initialState\<lparr>publications := [scenarioA],
                          filters := defaultFilters\<lparr>search := '' afro''\<rparr>,
                          filtered := []\<rparr>)"
proof -
  have tr: "trim ''Smith'' = ''Smith''" "trim ''civil'' = ''civil''" "trim '' afro'' = ''afro''"
    "trim ''smith'' = ''smith''"
    by (simp_all add: trim_def isWhiteSpace_def)
  have lo: "toLowerCase ''Smith'' = ''smith''" "toLowerCase ''afro'' = ''afro''"
    by (simp_all add: toLowerCase_def toLowerCaseChar_def)
  have a1: "app_handleSearch lc ''Smith'' (app_initialState\<lparr>app_publications := [herald]\<rparr>)
     = Inr (app_initialState\<lparr>app_publications := [herald],
                              app_filters := app_defaultFilters\<lparr>search := ''smith''\<rparr>,
                              filteredPublications := []\<rparr>)"
    by (simp add: app_handleSearch_def app_applyFilters_def app_sortPublications_def
        app_searchMatches_def app_publishersIncludes_def optIncludes_def
        app_initialState_def app_defaultFilters_def herald_def blank_def
        sortPublications_Nil tr lo lower_examples)
  have a2: "app_handleSearch lc ''civil'' (app_initialState\<lparr>app_publications := [herald]\<rparr>)
     = Inr (app_initialState\<lparr>app_publications := [herald],
                              app_filters := app_defaultFilters\<lparr>search := ''civil''\<rparr>,
                              filteredPublications := []\<rparr>)"
    by (simp add: app_handleSearch_def app_applyFilters_def app_sortPublications_def
        app_searchMatches_def app_publishersIncludes_def optIncludes_def
        app_initialState_def app_defaultFilters_def herald_def blank_def
        sortPublications_Nil tr lo lower_examples)
  have i: "includesStr (toLowerCase ''Founded by John Smith'') (toLowerCase (trim ''Smith''))"
      "includesStr (toLowerCase ''Civil Rights'') (toLowerCase (trim ''civil''))"
      "includesStr (toLowerCase ''Afro-American'') (toLowerCase (trim '' afro''))"
    by (simp_all add: tr lo lower_examples)
  have b: "handleSearch lc ''Smith'' (initialState\<lparr>publications := [herald]\<rparr>)
     = Inr (initialState\<lparr>publications := [herald],
                          filters := defaultFilters\<lparr>search := ''smith''\<rparr>,
                          filtered := [herald]\<rparr>)"
    by (simp add: handleSearch_def applyFilters_def searchMatches_def fieldIncludes_def
        publishersIncludes_def tagsInclude_def initialState_def defaultFilters_def
        herald_def blank_def sortPublications_single tr lo lower_examples)
  have p: "parseParams ''?search=+afro'' = [(''search'', '' afro'')]"
    by (simp add: parseParams_def decodeComponent_def plusToSpace_def)
  have u1: "filters (loadStateFromURL ''?search=+afro'' initialState)
       = defaultFilters\<lparr>search := '' afro''\<rparr>"
    by (simp add: loadStateFromURL_def p paramsGet_def initialState_def)
  have u2: "applyFilters lc (loadStateFromURL ''?search=+afro'' (initialState\<lparr>publications := [scenarioA]\<rparr>))
     = Inr (initialState\<lparr>publications := [scenarioA],
                          filters := defaultFilters\<lparr>search := '' afro''\<rparr>,
                          filtered := []\<rparr>)"
    by (simp add: loadStateFromURL_def p paramsGet_def applyFilters_def searchMatches_def
        fieldIncludes_def publishersIncludes_def tagsInclude_def initialState_def
        defaultFilters_def scenarioA_def blank_def sortPublications_Nil lower_examples)
  from a1 a2 i b u1 u2 show ?thesis by simp
qed

text \<open>Records whose publishers are not arrays never make a filter throw.\<close>

lemma applyFilters_total:
  assumes "\<forall>p\<in>set (publications st). \<forall>xs. publishers p \<noteq> Some (PubArr xs)"
  shows "\<exists>st'. applyFilters lc st = Inr st'"
proof (cases "search (filters st) = []")
  case True
  then show ?thesis by (simp add: applyFilters_def Let_def)
next
  case False
  then have q: "toLowerCase (search (filters st)) \<noteq> []" by (simp add: toLowerCase_Nil_iff)
  have "filterE (\<lambda>pub. searchMatches pub (toLowerCase (search (filters st)))) (publications st)
          = Inr (filter (\<lambda>p. \<exists>s\<in>set (searchFields p).
                   includesStr (toLowerCase s) (toLowerCase (search (filters st)))) (publications st))"
    using assms by (intro filterE_total searchMatches_no_array q) auto
  with False show ?thesis by (simp add: applyFilters_def Let_def)
qed

lemma app_applyFilters_total:
  assumes "\<forall>p\<in>set (app_publications st). \<forall>xs. publishers p \<noteq> Some (PubArr xs)"
  shows "\<exists>st'. app_applyFilters lc st = Inr st'"
proof (cases "search (app_filters st) = []")
  case True
  then show ?thesis by (simp add: app_applyFilters_def Let_def)
next
  case False
  have "filterE (\<lambda>pub. app_searchMatches pub (search (app_filters st))) (app_publications st)
          = Inr (filter (\<lambda>p. \<exists>s\<in>set (app_searchFields p).
                   includesStr (toLowerCase s) (search (app_filters st))) (app_publications st))"
    using assms by (intro filterE_total app_searchMatches_no_array) auto
  with False show ?thesis by (simp add: app_applyFilters_def Let_def)
qed

text \<open>
  Claim C4.  No engine operation is to throw on a record of the optional-field model,
  publishers as an array included.  On a record whose publishers are an array and whose
  earlier search fields do not hold the query, the search callback of either page calls
  \<^verbatim>\<open>toLowerCase\<close> on the array and the filter ends in a TypeError.
\<close>

theorem applyFilters_throws_on_publishers_array:
  "handleSearch lc ''brown'' (initialState\<lparr>publications := [sentinel]\<rparr>) = Inl TypeError
   \<and> app_handleSearch lc ''brown'' (app_initialState\<lparr>app_publications := [sentinel]\<rparr>)
       = Inl TypeError"
proof -
  have tr: "trim ''brown'' = ''brown''" by (simp add: trim_def isWhiteSpace_def)
  show ?thesis
    by (simp add: handleSearch_def applyFilters_def searchMatches_def fieldIncludes_def
        publishersIncludes_def app_handleSearch_def app_applyFilters_def app_searchMatches_def
        app_publishersIncludes_def optIncludes_def initialState_def defaultFilters_def
        app_initialState_def app_defaultFilters_def sentinel_def blank_def tr lower_examples)
qed

section \<open>Properties of the detail page lookup\<close>

lemma find_distinct_key:
  assumes "distinct (map f xs)" and "x \<in> set xs" and "f x = i"
  shows "find (\<lambda>p. f p = i) xs = Some x"
  using assms by (induction xs) (auto simp: image_iff)

lemma find_none_key: "(\<forall>x\<in>set xs. f x \<noteq> i) \<Longrightarrow> find (\<lambda>p. f p = i) xs = None"
  by (simp add: find_None_iff)

text \<open>
  Claim C3, as amended.  The lookup of the detail page returns the record of the first
  list that holds the identifier, in the order historic, contemporary, main list, with
  the name of that list as its source; the main list is read only when neither featured
  list holds the identifier, so every field of a featured result is the featured
  record's own.  (Identifiers are unique within a list.)
\<close>

theorem findPublication_priority:
  "(distinct (map pubId (historic F)) \<and> h \<in> set (historic F) \<and> pubId h = i \<longrightarrow>
      findPublication F B i = Some (h, ''featured-historic''))
   \<and> ((\<forall>p\<in>set (historic F). pubId p \<noteq> i) \<and> distinct (map pubId (contemporary F))
        \<and> c \<in> set (contemporary F) \<and> pubId c = i \<longrightarrow>
      findPublication F B i = Some (c, ''featured-contemporary''))
   \<and> ((\<forall>p\<in>set (historic F). pubId p \<noteq> i) \<and> (\<forall>p\<in>set (contemporary F). pubId p \<noteq> i)
        \<and> distinct (map pubId B) \<and> b \<in> set B \<and> pubId b = i \<longrightarrow>
      findPublication F B i = Some (b, ''main''))
   \<and> ((\<forall>p\<in>set (historic F). pubId p \<noteq> i) \<and> (\<forall>p\<in>set (contemporary F). pubId p \<noteq> i)
        \<and> (\<forall>p\<in>set B. pubId p \<noteq> i) \<longrightarrow>
      findPublication F B i = None)"
  by (auto simp: findPublication_def find_distinct_key find_none_key)

theorem findPublication_priority_witness:
  "findPublication \<lparr>historic = [(blank 1)\<lparr>name := Some ''Afro-American''\<rparr>], contemporary = []\<rparr>
      [scenarioA, herald] 1
     = Some ((blank 1)\<lparr>name := Some ''Afro-American''\<rparr>, ''featured-historic'')
   \<and> findPublication \<lparr>historic = [(blank 1)\<lparr>name := Some ''Afro-American''\<rparr>], contemporary = []\<rparr>
      [scenarioA, herald] 2
     = Some (herald, ''main'')
   \<and> findPublication \<lparr>historic = [(blank 1)\<lparr>name := Some ''Afro-American''\<rparr>], contemporary = []\<rparr>
      [scenarioA, herald] 7
     = None"
proof -
  let ?f = "(blank 1)\<lparr>name := Some ''Afro-American''\<rparr>"
  let ?F = "\<lparr>historic = [?f], contemporary = []\<rparr>"
  have h1: "distinct (map pubId (historic ?F)) \<and> ?f \<in> set (historic ?F) \<and> pubId ?f = 1"
    by (simp add: blank_def)
  have h2: "(\<forall>p\<in>set (historic ?F). pubId p \<noteq> 2) \<and> (\<forall>p\<in>set (contemporary ?F). pubId p \<noteq> 2)
        \<and> distinct (map pubId [scenarioA, herald]) \<and> herald \<in> set [scenarioA, herald]
        \<and> pubId herald = 2"
    by (simp add: blank_def scenarioA_def herald_def)
  have h3: "(\<forall>p\<in>set (historic ?F). pubId p \<noteq> 7) \<and> (\<forall>p\<in>set (contemporary ?F). pubId p \<noteq> 7)
        \<and> (\<forall>p\<in>set [scenarioA, herald]. pubId p \<noteq> 7)"
    by (simp add: blank_def scenarioA_def herald_def)
  from findPublication_priority[of ?F ?f 1 "[scenarioA, herald]"] h1
  have r1: "findPublication ?F [scenarioA, herald] 1 = Some (?f, ''featured-historic'')"
    by blast
  from findPublication_priority[of ?F _ 2 "[scenarioA, herald]" _ herald] h2
  have r2: "findPublication ?F [scenarioA, herald] 2 = Some (herald, ''main'')"
    by blast
  from findPublication_priority[of ?F _ 7 "[scenarioA, herald]"] h3
  have r3: "findPublication ?F [scenarioA, herald] 7 = None"
    by blast
  from r1 r2 r3 show ?thesis by simp
qed

text \<open>
  The lookup is not the field-by-field merge: for a featured record without a city and
  a base record in Jersey City, the merge has the city and the result of the lookup has
  none.
\<close>

theorem findPublication_merge_counterexample:
  "findPublication \<lparr>historic = [(blank 1)\<lparr>name := Some ''Afro-American''\<rparr>], contemporary = []\<rparr>
      [scenarioA] 1
     \<noteq> Some (fillGapsMerge ((blank 1)\<lparr>name := Some ''Afro-American''\<rparr>) scenarioA,
             ''featured-historic'')
   \<and> city scenarioA = Some ''Jersey City''
   \<and> city (fillGapsMerge ((blank 1)\<lparr>name := Some ''Afro-American''\<rparr>) scenarioA)
       = Some ''Jersey City''
   \<and> map_option (city \<circ> fst)
       (findPublication \<lparr>historic = [(blank 1)\<lparr>name := Some ''Afro-American''\<rparr>], contemporary = []\<rparr>
          [scenarioA] 1) = Some None"
  by (simp add: findPublication_def fillGapsMerge_def orElse_def scenarioA_def blank_def)

section \<open>Properties of the query string codec\<close>

lemma of_char_less_256: "(of_char c :: nat) < 256"
proof -
  have "(of_char c :: nat) mod 256 = of_char c" by (rule of_char_mod_256)
  then show ?thesis by (metis mod_less_divisor zero_less_numeral)
qed

lemma byte_nibbles: "(of_char c :: nat) div 16 < 16" "(of_char c :: nat) mod 16 < 16"
  using of_char_less_256[of c] by (simp_all add: div_less_iff_less_mult)

lemma hex_table: "\<forall>n\<in>set [0..<16]. hexValue (hexDigit n) = Some n \<and> hexDigit n \<noteq> CHR ''+''"
  by (simp add: upt_rec hexDigit_def hexValue_def)

lemma hex_roundtrip:
  assumes "n < 16"
  shows "hexValue (hexDigit n) = Some n" "hexDigit n \<noteq> CHR ''+''"
  using hex_table assms by auto

lemma percentDecode_plain:
  "c \<noteq> CHR ''%'' \<Longrightarrow> percentDecode (c # cs) = c # percentDecode cs"
  by (cases cs rule: percentDecode.cases) (auto split: option.splits)

lemma percentDecode_escape:
  assumes "hexValue h = Some a" and "hexValue l = Some b"
  shows "percentDecode (CHR ''%'' # h # l # rest) = char_of (16 * a + b) # percentDecode rest"
  using assms by simp


lemma safe_chars: "isUrlSafe c \<Longrightarrow> c \<noteq> CHR ''%'' \<and> c \<noteq> CHR ''+'' \<and> c \<noteq> CHR ''&'' \<and> c \<noteq> CHR ''=''"
  by (auto simp: isUrlSafe_def)

lemma decode_encodeByte:
  "percentDecode (map plusToSpace (encodeByte c @ rest)) = c # percentDecode (map plusToSpace rest)"
proof -
  consider "c = CHR '' ''" | "c \<noteq> CHR '' ''" "isUrlSafe c" | "c \<noteq> CHR '' ''" "\<not> isUrlSafe c"
    by blast
  then show ?thesis
  proof cases
    case 1
    then show ?thesis by (simp add: encodeByte_def plusToSpace_def percentDecode_plain)
  next
    case 2
    with safe_chars[of c] show ?thesis
      by (simp add: encodeByte_def plusToSpace_def percentDecode_plain)
  next
    case 3
    let ?n = "of_char c :: nat"
    have d: "?n div 16 < 16" "?n mod 16 < 16" by (rule byte_nibbles)+
    have "percentDecode (map plusToSpace (encodeByte c @ rest))
            = percentDecode (CHR ''%'' # hexDigit (?n div 16) # hexDigit (?n mod 16) # map plusToSpace rest)"
      using 3 hex_roundtrip(2)[OF d(1)] hex_roundtrip(2)[OF d(2)]
      by (simp add: encodeByte_def plusToSpace_def)
    also have "\<dots> = char_of (16 * (?n div 16) + ?n mod 16) # percentDecode (map plusToSpace rest)"
      by (rule percentDecode_escape) (rule hex_roundtrip(1), rule d)+
    also have "16 * (?n div 16) + ?n mod 16 = ?n" by simp
    finally show ?thesis by simp
  qed
qed

lemma decode_urlencode_append:
  "percentDecode (map plusToSpace (urlencode s @ rest)) = s @ percentDecode (map plusToSpace rest)"
proof (induction s)
  case Nil
  then show ?case by (simp add: urlencode_def)
next
  case (Cons c s)
  have "urlencode (c # s) @ rest = encodeByte c @ (urlencode s @ rest)"
    by (simp add: urlencode_def)
  with Cons show ?case by (simp only: decode_encodeByte) simp
qed

lemma decode_urlencode: "decodeComponent (urlencode s) = s"
  using decode_urlencode_append[of s "[]"] by (simp add: decodeComponent_def)

lemma hexDigit_not_sep: "n < 16 \<Longrightarrow> hexDigit n \<noteq> CHR ''&'' \<and> hexDigit n \<noteq> CHR ''=''"
proof -
  have "\<forall>n\<in>set [0..<16]. hexDigit n \<noteq> CHR ''&'' \<and> hexDigit n \<noteq> CHR ''=''"
    by (simp add: upt_rec hexDigit_def)
  then show "n < 16 \<Longrightarrow> hexDigit n \<noteq> CHR ''&'' \<and> hexDigit n \<noteq> CHR ''=''" by auto
qed

lemma encodeByte_no_sep: "x \<in> set (encodeByte c) \<Longrightarrow> x \<noteq> CHR ''&'' \<and> x \<noteq> CHR ''=''"
proof -
  let ?n = "of_char c :: nat"
  have d: "?n div 16 < 16" "?n mod 16 < 16" by (rule byte_nibbles)+
  assume "x \<in> set (encodeByte c)"
  then show ?thesis
    using safe_chars[of c] hexDigit_not_sep[OF d(1)] hexDigit_not_sep[OF d(2)]
    by (auto simp: encodeByte_def split: if_splits)
qed

lemma urlencode_no_sep: "x \<in> set (urlencode s) \<Longrightarrow> x \<noteq> CHR ''&'' \<and> x \<noteq> CHR ''=''"
  by (auto simp: urlencode_def dest: encodeByte_no_sep)

lemma splitOn_nonempty: "splitOn sep s \<noteq> []"
  by (induction s) (auto split: list.splits)

lemma splitOn_no_sep: "sep \<notin> set a \<Longrightarrow> splitOn sep a = [a]"
  by (induction a) auto

lemma splitOn_at_sep: "sep \<notin> set a \<Longrightarrow> splitOn sep (a @ sep # rest) = a # splitOn sep rest"
  by (induction a) auto

lemma pairString_no_amp: "CHR ''&'' \<notin> set (pairString kv)"
  using urlencode_no_sep by (auto simp: pairString_def)

lemma pairString_nonempty: "pairString kv \<noteq> []"
  by (simp add: pairString_def)

lemma serializeParams_eq:
  "serializeParams (kv # ps) =
     (if ps = [] then pairString kv else pairString kv @ CHR ''&'' # serializeParams ps)"
  by (cases ps) simp_all

lemma serializeParams_Nil_iff: "(serializeParams ps = []) = (ps = [])"
  by (cases ps) (auto simp: serializeParams_eq pairString_nonempty)

lemma split_serializeParams: "ps \<noteq> [] \<Longrightarrow> splitOn CHR ''&'' (serializeParams ps) = map pairString ps"
proof (induction ps)
  case Nil
  then show ?case by simp
next
  case (Cons kv ps)
  show ?case
  proof (cases "ps = []")
    case True
    then show ?thesis
      by (simp add: serializeParams_eq splitOn_no_sep pairString_no_amp)
  next
    case False
    with Cons show ?thesis
      by (simp add: serializeParams_eq splitOn_at_sep pairString_no_amp)
  qed
qed

lemma parse_pairString:
  "(decodeComponent (takeWhile (\<lambda>c. c \<noteq> CHR ''='') (pairString kv)),
    decodeComponent (drop 1 (dropWhile (\<lambda>c. c \<noteq> CHR ''='') (pairString kv)))) = kv"
proof -
  have k: "\<forall>x\<in>set (urlencode (fst kv)). x \<noteq> CHR ''=''"
    using urlencode_no_sep by blast
  have t: "takeWhile (\<lambda>c. c \<noteq> CHR ''='') (pairString kv) = urlencode (fst kv)"
    unfolding pairString_def using k by (simp add: takeWhile_append2)
  have d: "dropWhile (\<lambda>c. c \<noteq> CHR ''='') (pairString kv) = CHR ''='' # urlencode (snd kv)"
    unfolding pairString_def using k by (simp add: dropWhile_append2)
  show ?thesis by (simp add: t d decode_urlencode)
qed

lemma parse_serialize:
  "parseParams (if serializeParams ps \<noteq> [] then CHR ''?'' # serializeParams ps else []) = ps"
proof (cases "ps = []")
  case True
  then show ?thesis by (simp add: parseParams_def)
next
  case False
  then have ne: "serializeParams ps \<noteq> []" by (simp add: serializeParams_Nil_iff)
  have f: "filter (\<lambda>sq. sq \<noteq> []) (map pairString ps) = map pairString ps"
    by (simp add: filter_id_conv pairString_nonempty)
  have "parseParams (CHR ''?'' # serializeParams ps)
          = map (\<lambda>sq. (decodeComponent (takeWhile (\<lambda>c. c \<noteq> CHR ''='') sq),
                        decodeComponent (drop 1 (dropWhile (\<lambda>c. c \<noteq> CHR ''='') sq))))
              (map pairString ps)"
    by (simp add: parseParams_def split_serializeParams[OF False] f del: drop_Suc_Cons)
  also have "\<dots> = ps"
    by (simp add: parse_pairString comp_def del: One_nat_def)
  finally show ?thesis using ne by simp
qed

lemma paramsGet_setFirst:
  "paramsGet ps k \<noteq> None \<Longrightarrow>
     paramsGet (setFirst k v ps) k' = (if k' = k then Some v else paramsGet ps k')"
proof (induction ps)
  case Nil
  then show ?case by (simp add: paramsGet_def)
next
  case (Cons a ps)
  obtain k0 v0 where a: "a = (k0, v0)" by (cases a)
  show ?case
  proof (cases "k0 = k")
    case True
    have "map_of (filter (\<lambda>kv. fst kv \<noteq> k) ps) k' = map_of ps k'" if "k' \<noteq> k"
      using that by (induction ps) auto
    with True a show ?thesis by (auto simp: paramsGet_def)
  next
    case False
    with Cons a show ?thesis by (auto simp: paramsGet_def)
  qed
qed

lemma paramsGet_paramsSet:
  "paramsGet (paramsSet ps k v) k' = (if k' = k then Some v else paramsGet ps k')"
proof (cases "paramsGet ps k = None")
  case True
  then have "paramsSet ps k v = ps @ [(k, v)]" by (simp add: paramsSet_def)
  with True show ?thesis
    by (auto simp: paramsGet_def map_add_def split: option.splits)
next
  case False
  then have "paramsSet ps k v = setFirst k v ps" by (auto simp: paramsSet_def)
  moreover from False
  have "paramsGet (setFirst k v ps) k' = (if k' = k then Some v else paramsGet ps k')"
    by (rule paramsGet_setFirst)
  ultimately show ?thesis by simp
qed

lemma paramsGet_Nil: "paramsGet [] k = None"
  by (simp add: paramsGet_def)

lemma paramsGet_step:
  "paramsGet (if c then paramsSet p k v else p) k'
     = (if c \<and> k' = k then Some v else paramsGet p k')"
  by (simp add: paramsGet_paramsSet)

lemma parse_updateURL: "parseParams (updateURL st) = urlParams st"
  unfolding updateURL_def Let_def by (rule parse_serialize)

lemma urlParams_get:
  "paramsGet (urlParams st) ''search''
     = (if search (filters st) = [] then None else Some (search (filters st)))"
  "paramsGet (urlParams st) ''city''
     = (if cityFilter (filters st) = ''all'' then None else Some (cityFilter (filters st)))"
  "paramsGet (urlParams st) ''decade''
     = (if decadeFilter (filters st) = ''all'' then None else Some (decadeFilter (filters st)))"
  "paramsGet (urlParams st) ''status''
     = (if status (filters st) = ''all'' then None else Some (status (filters st)))"
  "paramsGet (urlParams st) ''sort''
     = (if sort_st st = ''name'' then None else Some (sort_st st))"
  "paramsGet (urlParams st) ''view''
     = (if view st = ''grid'' then None else Some (view st))"
  unfolding urlParams_def Let_def paramsGet_step
  by (simp_all add: paramsGet_Nil cong: if_cong)


text \<open>
  Claim C6.  For every state, loading the page state from the query string that
  updateURL writes for it, starting from the initial state, gives back its search, city,
  decade, status, sort and view.  A parameter is in the query string exactly when its
  field differs from the default (empty search, \<^verbatim>\<open>"all"\<close>, \<^verbatim>\<open>"name"\<close>,
  \<^verbatim>\<open>"grid"\<close>); the initial state is written as the empty query string, and the
  empty query string loads as the initial state.
\<close>

theorem url_state_roundtrip:
  "filters (loadStateFromURL (updateURL st) initialState) = filters st
   \<and> sort_st (loadStateFromURL (updateURL st) initialState) = sort_st st
   \<and> view (loadStateFromURL (updateURL st) initialState) = view st
   \<and> paramsGet (parseParams (updateURL st)) ''search''
       = (if search (filters st) = [] then None else Some (search (filters st)))
   \<and> paramsGet (parseParams (updateURL st)) ''city''
       = (if cityFilter (filters st) = ''all'' then None else Some (cityFilter (filters st)))
   \<and> paramsGet (parseParams (updateURL st)) ''decade''
       = (if decadeFilter (filters st) = ''all'' then None else Some (decadeFilter (filters st)))
   \<and> paramsGet (parseParams (updateURL st)) ''status''
       = (if status (filters st) = ''all'' then None else Some (status (filters st)))
   \<and> paramsGet (parseParams (updateURL st)) ''sort''
       = (if sort_st st = ''name'' then None else Some (sort_st st))
   \<and> paramsGet (parseParams (updateURL st)) ''view''
       = (if view st = ''grid'' then None else Some (view st))
   \<and> updateURL initialState = []
   \<and> loadStateFromURL [] initialState = initialState"
proof -
  have fs: "filters (loadStateFromURL (updateURL st) initialState) = filters st"
    by (cases "filters st")
       (simp add: loadStateFromURL_def Let_def parse_updateURL urlParams_get initialState_def
          defaultFilters_def)
  have so: "sort_st (loadStateFromURL (updateURL st) initialState) = sort_st st"
    by (simp add: loadStateFromURL_def Let_def parse_updateURL urlParams_get initialState_def)
  have vi: "view (loadStateFromURL (updateURL st) initialState) = view st"
    by (simp add: loadStateFromURL_def Let_def parse_updateURL urlParams_get initialState_def)
  have e: "updateURL initialState = []"
    by (simp add: updateURL_def urlParams_def initialState_def defaultFilters_def)
  have d: "loadStateFromURL [] initialState = initialState"
    by (simp add: loadStateFromURL_def parseParams_def paramsGet_def)
  from fs so vi e d urlParams_get[of st] show ?thesis by (simp add: parse_updateURL)
qed

lemma url_example:
  "updateURL (initialState\<lparr>filters := defaultFilters\<lparr>search := ''a b&c'', status := ''active''\<rparr>,
                           sort_st := ''year-asc''\<rparr>)
     = ''?search=a+b%26c&status=active&sort=year-asc''"
  by code_simp


end
